theory Spec2Isabelle
  imports Main "HOL-Library.Word"
begin

section \<open>Machine values\<close>

text \<open>
  Every \<^verbatim>\<open>int\<close> and \<^verbatim>\<open>unsigned int\<close> of \<^verbatim>\<open>screenshot.cc\<close> is a 32-bit cell.
  The cell is read as signed by \<open>sint\<close> and as unsigned by \<open>unat\<close>; \<open>+\<close> and \<open>-\<close>
  wrap around, so \<^verbatim>\<open>static_cast<unsigned int>\<close> of an \<^verbatim>\<open>int\<close> is the identity on
  the cell. A \<^verbatim>\<open>Window\<close> is an XID (\<^verbatim>\<open>unsigned long\<close>), a \<^verbatim>\<open>KeyCode\<close> an
  \<^verbatim>\<open>unsigned char\<close>. A pointer is an address, \<open>0\<close> the null pointer, and the
  memory maps an address to the 32-bit cell stored there. The root coordinates of an
  X event are 16-bit values, so the signed subtractions of the source stay far from
  overflow in a real run; the model lets them wrap, as the machine does.
\<close>

type_synonym cint = "32 word"
type_synonym Window = "64 word"
type_synonym KeyCode = "8 word"
type_synonym addr = nat
type_synonym mem = "addr \<Rightarrow> cint"

text \<open>\<^verbatim>\<open>std::min\<close> and \<^verbatim>\<open>std::max\<close> at type \<^verbatim>\<open>int\<close>:
  \<^verbatim>\<open>min(a, b) = (b < a) ? b : a\<close> and \<^verbatim>\<open>max(a, b) = (a < b) ? b : a\<close>, the
  comparison signed.\<close>

definition min_int :: "cint \<Rightarrow> cint \<Rightarrow> cint" where
  "min_int a b = (if b <s a then b else a)"

definition max_int :: "cint \<Rightarrow> cint \<Rightarrow> cint" where
  "max_int a b = (if a <s b then b else a)"

section \<open>Requests to the outside world\<close>

text \<open>
  Each call that leaves the program (Xlib, cairo, gflags, \<^verbatim>\<open>usleep\<close>) is one entry of
  the run's trace, in program order, with the arguments that the claims read.
  \<open>XCreateWindow\<close> carries the background pixel and the geometry; a GC is named by
  its foreground pixel.
\<close>

datatype pixel = BlackPixel | WhitePixel

datatype cairo_format_t = CAIRO_FORMAT_ARGB32 | CAIRO_FORMAT_RGB24

datatype xcall =
    ShowUsageWithFlags
  | XOpenDisplay
  | XGetGeometry Window
  | XCreateFontCursor
  | XCreateWindow pixel cint cint cint cint
  | XSelectInput Window
  | XCreateGC pixel
  | XGrabPointer
  | XGrabKeyboard
  | XUngrabPointer
  | XUngrabKeyboard
  | usleep nat
  | XMoveResizeWindow Window cint cint cint cint
  | XMapWindow Window
  | XUnmapWindow Window
  | XDestroyWindow Window
  | XFillRectangle Window pixel cint cint cint cint
  | XFreeCursor
  | XFreeGC pixel
  | XGetImage Window cint cint cint cint
  | XInternAtom
  | XChangeProperty Window cint
  | XFlush
  | cairo_image_surface_create_for_data cairo_format_t cint cint cint
  | cairo_surface_write_to_png string
  | cairo_surface_destroy
  | XDestroyImage
  | XCloseDisplay

text \<open>The events that \<^verbatim>\<open>XNextEvent\<close> delivers: the five types the \<^verbatim>\<open>switch\<close> of
  \<^verbatim>\<open>SelectRegion\<close> has a case for, with the fields it reads, and any other type.\<close>

datatype XEvent =
    ButtonPress cint cint
  | ButtonRelease cint cint
  | Expose Window
  | KeyPress cint
  | MotionNotify cint cint
  | OtherEvent

text \<open>An \<^verbatim>\<open>XImage\<close>, with the fields \<^verbatim>\<open>main\<close> reads.\<close>

record XImage =
  img_width :: cint
  img_height :: cint
  img_depth :: cint
  img_bytes_per_line :: cint

text \<open>
  What the outside world answers during one run: the command line as gflags leaves
  it, the X server's replies and the event queue, and cairo's results.
  \<open>keyboard_grab_reply k\<close> is the outcome of the \<open>k\<close>-th call of \<^verbatim>\<open>XGrabKeyboard\<close>
  (counted from 0), \<open>geometry_reply w\<close> the width and height \<^verbatim>\<open>XGetGeometry\<close>
  stores for window \<open>w\<close> (\<open>None\<close> when it returns 0), \<open>image_reply\<close> the image
  \<^verbatim>\<open>XGetImage\<close> returns (\<open>None\<close> for \<^verbatim>\<open>NULL\<close>).
\<close>

record world =
  argc :: int
  filename :: string
  FLAGS_window :: string
  FLAGS_region :: bool
  display_opens :: bool
  root_window :: Window
  geometry_reply :: "Window \<Rightarrow> (cint \<times> cint) option"
  border_window_ids :: "Window \<times> Window \<times> Window \<times> Window"
  feedback_window_id :: Window
  pointer_grab_reply :: bool
  keyboard_grab_reply :: "nat \<Rightarrow> bool"
  escape_keycode :: KeyCode
  events :: "XEvent list"
  image_reply :: "Window \<Rightarrow> cint \<Rightarrow> cint \<Rightarrow> cint \<Rightarrow> cint \<Rightarrow> XImage option"
  surface_created :: bool
  png_written :: bool

section \<open>RegionSelector\<close>

record RegionSelector =
  root :: Window
  left_win :: Window
  right_win :: Window
  top_win :: Window
  bottom_win :: Window

definition kBorder :: cint where
  "kBorder = 2"

definition kInteriorBorder :: cint where
  "kInteriorBorder = 1"

definition kMaxKeyboardGrabAttempts :: nat where
  "kMaxKeyboardGrabAttempts = 10"

definition kKeyboardGrabDelayMs :: nat where
  "kKeyboardGrabDelayMs = 100"

text \<open>\<^verbatim>\<open>ConfigureWindows\<close>: the four border windows frame the dragged region.\<close>

definition ConfigureWindows :: "RegionSelector \<Rightarrow> cint \<Rightarrow> cint \<Rightarrow> cint \<Rightarrow> cint \<Rightarrow> xcall list" where
  "ConfigureWindows sel start_x start_y drag_x drag_y =
     (let left = min_int drag_x start_x;
          right = max_int drag_x start_x;
          top = min_int drag_y start_y;
          bottom = max_int drag_y start_y
      in [XMoveResizeWindow (left_win sel)
            (left - kBorder) top kBorder (max_int (bottom - top) 1),
          XMoveResizeWindow (right_win sel)
            right top kBorder (max_int (bottom - top) 1),
          XMoveResizeWindow (top_win sel)
            (left - kBorder) (top - kBorder) (right - left + 2 * kBorder) kBorder,
          XMoveResizeWindow (bottom_win sel)
            (left - kBorder) bottom (right - left + 2 * kBorder) kBorder])"

text \<open>\<^verbatim>\<open>MoveWindowsOffscreen\<close>: every border window goes to \<open>(-1, -1)\<close>, size 1 by 1.\<close>

definition MoveWindowsOffscreen :: "RegionSelector \<Rightarrow> xcall list" where
  "MoveWindowsOffscreen sel =
     [XMoveResizeWindow (left_win sel) (- 1) (- 1) 1 1,
      XMoveResizeWindow (right_win sel) (- 1) (- 1) 1 1,
      XMoveResizeWindow (top_win sel) (- 1) (- 1) 1 1,
      XMoveResizeWindow (bottom_win sel) (- 1) (- 1) 1 1]"

text \<open>\<^verbatim>\<open>PaintWindow\<close>: the \<^verbatim>\<open>if\<close> chain on the exposed window, in the source's order.\<close>

definition PaintWindow :: "RegionSelector \<Rightarrow> Window \<Rightarrow> cint \<Rightarrow> cint \<Rightarrow> cint \<Rightarrow> cint \<Rightarrow> xcall list" where
  "PaintWindow sel win start_x start_y drag_x drag_y =
     (let width = max_int start_x drag_x - min_int start_x drag_x;
          height = max_int start_y drag_y - min_int start_y drag_y
      in if win = left_win sel then
           [XFillRectangle win BlackPixel 0 0 (kBorder - kInteriorBorder) height,
            XFillRectangle win WhitePixel (kBorder - kInteriorBorder) 0 kInteriorBorder height]
         else if win = right_win sel then
           [XFillRectangle win BlackPixel kInteriorBorder 0 (kBorder - kInteriorBorder) height,
            XFillRectangle win WhitePixel 0 0 kInteriorBorder height]
         else if win = top_win sel then
           [XFillRectangle win BlackPixel 0 0 (width + 2 * kBorder) (kBorder - kInteriorBorder),
            XFillRectangle win BlackPixel 0 (kBorder - kInteriorBorder)
              (kBorder - kInteriorBorder) kInteriorBorder,
            XFillRectangle win BlackPixel (kBorder + width + kInteriorBorder)
              (kBorder - kInteriorBorder) (kBorder - kInteriorBorder) kInteriorBorder,
            XFillRectangle win WhitePixel (kBorder - kInteriorBorder) (kBorder - kInteriorBorder)
              (width + 2 * kInteriorBorder) kInteriorBorder]
         else if win = bottom_win sel then
           [XFillRectangle win BlackPixel 0 kInteriorBorder
              (width + 2 * kBorder) (kBorder - kInteriorBorder),
            XFillRectangle win BlackPixel 0 0 (kBorder - kInteriorBorder) kInteriorBorder,
            XFillRectangle win BlackPixel (kBorder + width + kInteriorBorder) 0
              (kBorder - kInteriorBorder) kInteriorBorder,
            XFillRectangle win WhitePixel (kBorder - kInteriorBorder) 0
              (width + 2 * kInteriorBorder) kInteriorBorder]
         else [])"

subsection \<open>The keyboard grab, retried\<close>

text \<open>
  The \<^verbatim>\<open>while (!GrabKeyboard())\<close> loop of \<^verbatim>\<open>SelectRegion\<close>, entered with
  \<open>num_failed_grabs\<close> failed calls behind it; every call so far has failed, so the next
  call is call number \<open>num_failed_grabs\<close>. The result is whether the keyboard was
  grabbed, and the calls made.
\<close>

function grab_keyboard_loop :: "(nat \<Rightarrow> bool) \<Rightarrow> nat \<Rightarrow> bool \<times> xcall list" where
  "grab_keyboard_loop reply num_failed_grabs =
     (if reply num_failed_grabs then (True, [XGrabKeyboard])
      else if Suc num_failed_grabs \<ge> kMaxKeyboardGrabAttempts
        then (False, [XGrabKeyboard, XUngrabPointer])
      else (fst (grab_keyboard_loop reply (Suc num_failed_grabs)),
            XGrabKeyboard # usleep (kKeyboardGrabDelayMs * 1000)
              # snd (grab_keyboard_loop reply (Suc num_failed_grabs))))"
  by pat_completeness auto
termination
  by (relation "measure (\<lambda>(reply, n). kMaxKeyboardGrabAttempts - n)") auto

declare grab_keyboard_loop.simps [simp del]

subsection \<open>The event loop\<close>

text \<open>The local variables of \<^verbatim>\<open>SelectRegion\<close> that the loop reads and writes.\<close>

record drag =
  finished :: bool
  dragging :: bool
  aborted :: bool
  start_x :: cint
  start_y :: cint
  end_x :: cint
  end_y :: cint

definition drag_init :: drag where
  "drag_init = \<lparr>finished = False, dragging = False, aborted = False,
                 start_x = 0, start_y = 0, end_x = 0, end_y = 0\<rparr>"

text \<open>The \<^verbatim>\<open>switch (event.type)\<close>: the new locals and the calls made. \<open>finished\<close> is
  the source's \<^verbatim>\<open>done\<close>.\<close>

fun handle_event :: "RegionSelector \<Rightarrow> KeyCode \<Rightarrow> drag \<Rightarrow> XEvent \<Rightarrow> drag \<times> xcall list" where
  "handle_event sel esc d (ButtonPress x_root y_root) =
     (d\<lparr>start_x := x_root, start_y := y_root, dragging := True\<rparr>, [])"
| "handle_event sel esc d (ButtonRelease x_root y_root) =
     (if dragging d
      then (d\<lparr>end_x := x_root, end_y := y_root, finished := True\<rparr>, [])
      else (d, []))"
| "handle_event sel esc d (Expose window) =
     (d, PaintWindow sel window (start_x d) (start_y d) (end_x d) (end_y d))"
| "handle_event sel esc d (KeyPress keycode) =
     (if keycode = ucast esc
      then (if dragging d
            then (d\<lparr>dragging := False\<rparr>, MoveWindowsOffscreen sel)
            else (d\<lparr>aborted := True\<rparr>, []))
      else (d, []))"
| "handle_event sel esc d (MotionNotify x_root y_root) =
     (if dragging d
      then (d\<lparr>end_x := x_root, end_y := y_root\<rparr>,
            ConfigureWindows sel (start_x d) (start_y d) x_root y_root)
      else (d, []))"
| "handle_event sel esc d OtherEvent = (d, [])"

text \<open>
  \<^verbatim>\<open>while (!done && !aborted) { XNextEvent(...); switch ... }\<close> on the queued events:
  the locals and the calls made when the loop ends or the queue is used up, whichever
  comes first. Events that are still queued when the loop ends stay unread.
\<close>

fun event_loop :: "RegionSelector \<Rightarrow> KeyCode \<Rightarrow> drag \<Rightarrow> XEvent list \<Rightarrow> drag \<times> xcall list" where
  "event_loop sel esc d [] = (d, [])"
| "event_loop sel esc d (event # rest) =
     (if \<not> finished d \<and> \<not> aborted d
      then (fst (event_loop sel esc (fst (handle_event sel esc d event)) rest),
            snd (handle_event sel esc d event)
              @ snd (event_loop sel esc (fst (handle_event sel esc d event)) rest))
      else (d, []))"

subsection \<open>SelectRegion\<close>

text \<open>
  \<^verbatim>\<open>SelectRegion\<close> from \<^verbatim>\<open>MoveWindowsOffscreen()\<close> on, both grabs held. The
  parameters \<open>x\<close>, \<open>y\<close>, \<open>width\<close>, \<open>height\<close> are the pointers of the source. The
  result is the returned \<^verbatim>\<open>bool\<close>, the memory and the calls made. \<^verbatim>\<open>XNextEvent\<close>
  blocks on an empty queue, so when the events are used up with the loop still
  running, the function never returns: \<open>None\<close>. The last line of the source,
  \<^verbatim>\<open>return (width > 0 && height > 0)\<close>, compares the pointers \<open>width\<close> and
  \<open>height\<close> with the null pointer, not the cells they point to; an address other
  than 0 is greater.
\<close>

definition select_with_grabs ::
  "RegionSelector \<Rightarrow> world \<Rightarrow> addr \<Rightarrow> addr \<Rightarrow> addr \<Rightarrow> addr \<Rightarrow> mem \<Rightarrow> (bool \<times> mem \<times> xcall list) option" where
  "select_with_grabs sel w x y width height m =
     (case event_loop sel (escape_keycode w) drag_init (events w) of
        (d, loop_calls) \<Rightarrow>
          if \<not> finished d \<and> \<not> aborted d then None
          else
            let calls = MoveWindowsOffscreen sel
                  @ [XMapWindow (left_win sel), XMapWindow (right_win sel),
                     XMapWindow (top_win sel), XMapWindow (bottom_win sel)]
                  @ loop_calls
                  @ [XUngrabKeyboard, XUngrabPointer,
                     XUnmapWindow (left_win sel), XUnmapWindow (right_win sel),
                     XUnmapWindow (top_win sel), XUnmapWindow (bottom_win sel)]
            in if aborted d then Some (False, m, calls)
               else
                 let m1 = m(x := min_int (start_x d) (end_x d));
                     m2 = m1(y := min_int (start_y d) (end_y d));
                     m3 = m2(width := max_int (start_x d) (end_x d) - m2 x);
                     m4 = m3(height := max_int (start_y d) (end_y d) - m3 y)
                 in Some (width > 0 \<and> height > 0, m4, calls))"

definition SelectRegion ::
  "RegionSelector \<Rightarrow> world \<Rightarrow> addr \<Rightarrow> addr \<Rightarrow> addr \<Rightarrow> addr \<Rightarrow> mem \<Rightarrow> (bool \<times> mem \<times> xcall list) option" where
  "SelectRegion sel w x y width height m =
     (if \<not> pointer_grab_reply w then Some (False, m, [XGrabPointer])
      else
        (case grab_keyboard_loop (keyboard_grab_reply w) 0 of
           (False, grab_calls) \<Rightarrow> Some (False, m, XGrabPointer # grab_calls)
         | (True, grab_calls) \<Rightarrow>
             (case select_with_grabs sel w x y width height m of
                None \<Rightarrow> None
              | Some (ok, m', calls) \<Rightarrow> Some (ok, m', XGrabPointer # grab_calls @ calls))))"

text \<open>The constructor creates the cursor, the four border windows (each by
  \<^verbatim>\<open>CreateWindow\<close>: offscreen, black background, exposure events selected) and the
  two GCs; the destructor releases them. The window ids are the server's.\<close>

definition CreateWindow :: "Window \<Rightarrow> xcall list" where
  "CreateWindow win = [XCreateWindow BlackPixel (- 1) (- 1) 1 1, XSelectInput win]"

definition RegionSelector_new :: "world \<Rightarrow> RegionSelector \<times> xcall list" where
  "RegionSelector_new w =
     (case border_window_ids w of
        (l, r, t, b) \<Rightarrow>
          (\<lparr>root = root_window w, left_win = l, right_win = r, top_win = t, bottom_win = b\<rparr>,
           XCreateFontCursor # CreateWindow l @ CreateWindow r @ CreateWindow t @ CreateWindow b
             @ [XCreateGC BlackPixel, XCreateGC WhitePixel]))"

definition RegionSelector_delete :: "RegionSelector \<Rightarrow> xcall list" where
  "RegionSelector_delete sel =
     [XDestroyWindow (left_win sel), XDestroyWindow (right_win sel),
      XDestroyWindow (top_win sel), XDestroyWindow (bottom_win sel),
      XFreeCursor, XFreeGC BlackPixel, XFreeGC WhitePixel]"

section \<open>The window flag\<close>

text \<open>
  \<^verbatim>\<open>istringstream input(FLAGS_window); input >> hex >> win\<close> with \<open>win\<close> an
  \<^verbatim>\<open>unsigned long\<close> of 64 bits, as the C++ library of the Makefile's \<^verbatim>\<open>g++\<close> does it:
  leading white space is skipped, then an optional sign, an optional \<^verbatim>\<open>0x\<close> or
  \<^verbatim>\<open>0X\<close>, and the longest run of hexadecimal digits; what follows the digits stays
  unread. The extraction fails (\<open>None\<close>) when there is no digit or the number does not
  fit the type; a minus sign negates modulo \<open>2 ^ 64\<close>.
\<close>

definition isspace :: "char \<Rightarrow> bool" where
  "isspace c = (c \<in> set [CHR '' '', CHR 0x09, CHR 0x0A, CHR 0x0B, CHR 0x0C, CHR 0x0D])"

definition hex_digit :: "char \<Rightarrow> nat option" where
  "hex_digit c =
     (let n = (of_char c :: nat)
      in if 48 \<le> n \<and> n \<le> 57 then Some (n - 48)
         else if 97 \<le> n \<and> n \<le> 102 then Some (n - 87)
         else if 65 \<le> n \<and> n \<le> 70 then Some (n - 55)
         else None)"

fun hex_digits :: "nat \<Rightarrow> string \<Rightarrow> nat" where
  "hex_digits acc [] = acc"
| "hex_digits acc (c # cs) =
     (case hex_digit c of None \<Rightarrow> acc | Some d \<Rightarrow> hex_digits (16 * acc + d) cs)"

definition extract_hex :: "string \<Rightarrow> Window option" where
  "extract_hex s =
     (let s1 = dropWhile isspace s;
          neg = (case s1 of c # cs \<Rightarrow> c = CHR ''-'' | [] \<Rightarrow> False);
          s2 = (case s1 of c # cs \<Rightarrow> if c = CHR ''-'' \<or> c = CHR ''+'' then cs else s1 | [] \<Rightarrow> []);
          s3 = (case s2 of
                  a # b # cs \<Rightarrow> if a = CHR ''0'' \<and> (b = CHR ''x'' \<or> b = CHR ''X'') then cs else s2
                | _ \<Rightarrow> s2)
      in case s3 of
           [] \<Rightarrow> None
         | c # cs \<Rightarrow>
             (case hex_digit c of
                None \<Rightarrow> None
              | Some d \<Rightarrow>
                  let v = hex_digits 0 s3
                  in if v \<ge> 2 ^ 64 then None
                     else Some (if neg then - of_nat v else of_nat v)))"

section \<open>main\<close>

text \<open>A run ends by \<^verbatim>\<open>return\<close> from \<^verbatim>\<open>main\<close> or by a failed \<^verbatim>\<open>CHECK\<close>, which logs a
  fatal message and aborts the process.\<close>

datatype check =
    CHECK_display
  | CHECK_window
  | CHECK_XGetGeometry
  | CHECK_image
  | CHECK_depth
  | CHECK_surface
  | CHECK_write_to_png

datatype outcome = Return int | CheckFailed check

definition kVisualFeedbackWindowDisplayTimeMs :: nat where
  "kVisualFeedbackWindowDisplayTimeMs = 100"

text \<open>\<^verbatim>\<open>CreateVisualFeedbackWindow\<close>: a white window over the captured rectangle with
  the opacity property set to \<^verbatim>\<open>0.25 * numeric_limits<uint32_t>::max()\<close>, truncated
  to \<^verbatim>\<open>uint32_t\<close>. It is not mapped here.\<close>

definition CreateVisualFeedbackWindow :: "Window \<Rightarrow> cint \<Rightarrow> cint \<Rightarrow> cint \<Rightarrow> cint \<Rightarrow> xcall list" where
  "CreateVisualFeedbackWindow win x y width height =
     [XCreateWindow WhitePixel x y width height, XInternAtom, XChangeProperty win 1073741823]"

text \<open>The addresses of \<^verbatim>\<open>main\<close>'s locals \<^verbatim>\<open>shot_x\<close>, \<^verbatim>\<open>shot_y\<close>, \<^verbatim>\<open>shot_width\<close>
  and \<^verbatim>\<open>shot_height\<close>: four different addresses, none of them null.\<close>

definition shot_x :: addr where
  "shot_x = 1"

definition shot_y :: addr where
  "shot_y = 2"

definition shot_width :: addr where
  "shot_width = 3"

definition shot_height :: addr where
  "shot_height = 4"

text \<open>\<^verbatim>\<open>main\<close> from \<^verbatim>\<open>XGetImage\<close> to its end, on the window \<open>win\<close> and the memory
  \<open>m\<close> that holds the rectangle to capture.\<close>

definition capture_and_save :: "world \<Rightarrow> Window \<Rightarrow> mem \<Rightarrow> outcome \<times> xcall list" where
  "capture_and_save w win m =
     (let get_image = XGetImage win (m shot_x) (m shot_y) (m shot_width) (m shot_height)
      in case image_reply w win (m shot_x) (m shot_y) (m shot_width) (m shot_height) of
           None \<Rightarrow> (CheckFailed CHECK_image, [get_image])
         | Some img \<Rightarrow>
             if \<not> (img_depth img = 24 \<or> img_depth img = 32)
             then (CheckFailed CHECK_depth, [get_image])
             else
               let visual_feedback_win = feedback_window_id w;
                   calls = get_image
                     # CreateVisualFeedbackWindow visual_feedback_win
                         (m shot_x) (m shot_y) (m shot_width) (m shot_height)
                     @ [XMapWindow visual_feedback_win, XFlush,
                        usleep (kVisualFeedbackWindowDisplayTimeMs * 1000),
                        XDestroyWindow visual_feedback_win, XFlush,
                        cairo_image_surface_create_for_data
                          (if img_depth img = 24 then CAIRO_FORMAT_RGB24 else CAIRO_FORMAT_ARGB32)
                          (img_width img) (img_height img) (img_bytes_per_line img)]
               in if \<not> surface_created w then (CheckFailed CHECK_surface, calls)
                  else if \<not> png_written w
                    then (CheckFailed CHECK_write_to_png,
                          calls @ [cairo_surface_write_to_png (filename w)])
                  else (Return 0,
                        calls @ [cairo_surface_write_to_png (filename w), cairo_surface_destroy,
                                 XDestroyImage, XCloseDisplay]))"

text \<open>The window to capture: the root window when the window flag is empty or the
  region flag is set, else the window flag's value read as a hexadecimal number
  (\<open>None\<close> when the \<^verbatim>\<open>CHECK\<close> on the extraction fails).\<close>

definition capture_window :: "world \<Rightarrow> Window option" where
  "capture_window w =
     (if FLAGS_window w = [] \<or> FLAGS_region w then Some (root_window w)
      else extract_hex (FLAGS_window w))"

text \<open>\<^verbatim>\<open>main\<close>: how the run ends and the calls made, or \<open>None\<close> when the run never
  ends (the selection waits for an event that does not come). The selector's
  destructor runs when its block is left, also by \<^verbatim>\<open>return 1\<close>.\<close>

definition main :: "world \<Rightarrow> (outcome \<times> xcall list) option" where
  "main w =
     (if argc w \<noteq> 2 then Some (Return 1, [ShowUsageWithFlags])
      else if \<not> display_opens w then Some (CheckFailed CHECK_display, [XOpenDisplay])
      else
        (case capture_window w of
           None \<Rightarrow> Some (CheckFailed CHECK_window, [XOpenDisplay])
         | Some win \<Rightarrow>
             (case geometry_reply w win of
                None \<Rightarrow> Some (CheckFailed CHECK_XGetGeometry, [XOpenDisplay, XGetGeometry win])
              | Some (geom_width, geom_height) \<Rightarrow>
                  let m = (\<lambda>a. 0)(shot_width := geom_width, shot_height := geom_height)
                  in if FLAGS_region w
                     then
                       (case SelectRegion (fst (RegionSelector_new w)) w
                               shot_x shot_y shot_width shot_height m of
                          None \<Rightarrow> None
                        | Some (ok, m', calls) \<Rightarrow>
                            let before = [XOpenDisplay, XGetGeometry win]
                                  @ snd (RegionSelector_new w) @ calls
                                  @ RegionSelector_delete (fst (RegionSelector_new w))
                            in if \<not> ok then Some (Return 1, before)
                               else Some (fst (capture_and_save w win m'),
                                          before @ snd (capture_and_save w win m')))
                     else Some (fst (capture_and_save w win m),
                                [XOpenDisplay, XGetGeometry win] @ snd (capture_and_save w win m)))))"

section \<open>Auxiliary notions and example runs\<close>

text \<open>An event that leaves a drag in progress as it is: pointer motion, an exposure,
  a key other than escape, an event of another type. The others start, end or cancel a
  drag.\<close>

fun keeps_drag :: "KeyCode \<Rightarrow> XEvent \<Rightarrow> bool" where
  "keeps_drag esc (ButtonPress x_root y_root) = False"
| "keeps_drag esc (ButtonRelease x_root y_root) = False"
| "keeps_drag esc (KeyPress keycode) = (keycode \<noteq> ucast esc)"
| "keeps_drag esc (Expose window) = True"
| "keeps_drag esc (MotionNotify x_root y_root) = True"
| "keeps_drag esc OtherEvent = True"




text \<open>The calls that move or paint a border window.\<close>

fun border_call :: "xcall \<Rightarrow> bool" where
  "border_call (XMoveResizeWindow win x y width height) = True"
| "border_call (XFillRectangle win colour x y width height) = True"
| "border_call c = False"

text \<open>The calls by which \<^verbatim>\<open>main\<close> reads the pixels, creates the feedback window and
  encodes the image.\<close>

fun capture_call :: "xcall \<Rightarrow> bool" where
  "capture_call (XGetImage win x y width height) = True"
| "capture_call (XCreateWindow WhitePixel x y width height) = True"
| "capture_call (cairo_image_surface_create_for_data format width height stride) = True"
| "capture_call (cairo_surface_write_to_png name) = True"
| "capture_call c = False"

text \<open>A selector with border windows 10 to 13 on root window 1, and a run with the
  region flag on a 1920 by 1080 display where every grab succeeds at once, escape is
  key 9, the image has depth 24 and the file can be written; the events are left open.\<close>

definition demo_selector :: RegionSelector where
  "demo_selector = \<lparr>root = 1, left_win = 10, right_win = 11, top_win = 12, bottom_win = 13\<rparr>"

definition demo_world :: "XEvent list \<Rightarrow> world" where
  "demo_world evs =
     \<lparr>argc = 2, filename = ''shot.png'', FLAGS_window = [], FLAGS_region = True,
      display_opens = True, root_window = 1, geometry_reply = (\<lambda>win. Some (1920, 1080)),
      border_window_ids = (10, 11, 12, 13), feedback_window_id = 14,
      pointer_grab_reply = True, keyboard_grab_reply = (\<lambda>k. True), escape_keycode = 9,
      events = evs,
      image_reply = (\<lambda>win x y width height.
        Some \<lparr>img_width = width, img_height = height, img_depth = 24,
              img_bytes_per_line = 4 * width\<rparr>),
      surface_created = True, png_written = True\<rparr>"

section \<open>Arithmetic of the normalized rectangle\<close>

lemma sint_min_int: "sint (min_int a b) = min (sint a) (sint b)"
  by (simp add: min_int_def word_sless_alt min_def)

lemma uint_sub_of_sint_le:
  fixes a b :: cint
  assumes "sint a \<le> sint b"
  shows "uint (b - a) = sint b - sint a"
proof -
  have "b - a = word_of_int (sint b - sint a)"
    by simp
  then have "uint (b - a) = (sint b - sint a) mod 2 ^ 32"
    by (simp only: uint_word_of_int) simp
  moreover have "- (2 ^ 31) \<le> sint a" "sint a < 2 ^ 31" "- (2 ^ 31) \<le> sint b" "sint b < 2 ^ 31"
    using sint_ge [of a] sint_lt [of a] sint_ge [of b] sint_lt [of b] by simp_all
  ultimately show ?thesis
    using assms by simp
qed

lemma uint_max_minus_min:
  "uint (max_int a b - min_int a b) = \<bar>sint a - sint b\<bar>"
proof (cases "a <s b")
  case True
  then have "sint a \<le> sint b" by (simp add: word_sless_alt)
  then show ?thesis
    using True uint_sub_of_sint_le [of a b] by (simp add: max_int_def min_int_def word_sless_alt)
next
  case False
  then have le: "sint b \<le> sint a" by (simp add: word_sless_alt)
  show ?thesis
  proof (cases "b <s a")
    case True
    then show ?thesis
      using False le uint_sub_of_sint_le [of b a] by (simp add: max_int_def min_int_def word_sless_alt)
  next
    case b: False
    then have "sint a = sint b" using le by (simp add: word_sless_alt)
    then show ?thesis using False b by (simp add: max_int_def min_int_def)
  qed
qed

section \<open>The keyboard grab loop\<close>

lemma grab_keyboard_loop_fst:
  "n < 10 \<Longrightarrow> fst (grab_keyboard_loop reply n) = (\<exists>k. n \<le> k \<and> k < 10 \<and> reply k)"
proof (induction reply n rule: grab_keyboard_loop.induct)
  case (1 reply n)
  note unfold = grab_keyboard_loop.simps [of reply n]
  show ?case
  proof (cases "reply n")
    case True
    with "1.prems" show ?thesis by (auto simp: unfold)
  next
    case False
    show ?thesis
    proof (cases "Suc n \<ge> kMaxKeyboardGrabAttempts")
      case True
      with "1.prems" have "n = 9" by (simp add: kMaxKeyboardGrabAttempts_def)
      have "\<not> (\<exists>k. n \<le> k \<and> k < 10 \<and> reply k)"
      proof
        assume "\<exists>k. n \<le> k \<and> k < 10 \<and> reply k"
        then obtain k where k: "n \<le> k" "k < 10" "reply k" by blast
        with \<open>n = 9\<close> have "k = n" by simp
        with k False show False by simp
      qed
      with False True show ?thesis by (simp add: unfold)
    next
      case last: False
      then have "Suc n < 10" by (simp add: kMaxKeyboardGrabAttempts_def)
      with "1.IH" False last
      have "fst (grab_keyboard_loop reply (Suc n)) = (\<exists>k. Suc n \<le> k \<and> k < 10 \<and> reply k)"
        by simp
      moreover have "(\<exists>k. Suc n \<le> k \<and> k < 10 \<and> reply k) = (\<exists>k. n \<le> k \<and> k < 10 \<and> reply k)"
        using False by (metis Suc_leD Suc_leI le_neq_implies_less)
      ultimately show ?thesis using False last by (simp add: unfold)
    qed
  qed
qed

lemma grab_keyboard_loop_success:
  "n + j < 10 \<Longrightarrow> (\<forall>k<j. \<not> reply (n + k)) \<Longrightarrow> reply (n + j) \<Longrightarrow>
     grab_keyboard_loop reply n =
       (True, concat (replicate j [XGrabKeyboard, usleep (100 * 1000)]) @ [XGrabKeyboard])"
proof (induction j arbitrary: n)
  case 0
  then show ?case by (simp add: grab_keyboard_loop.simps [of reply n])
next
  case (Suc j)
  have nr: "\<not> reply n" using Suc.prems(2) by (metis add.right_neutral zero_less_Suc)
  have "\<forall>k<j. \<not> reply (Suc n + k)"
    using Suc.prems(2) by (metis Suc_less_eq add_Suc_shift)
  with Suc.IH [of "Suc n"] Suc.prems
  have "grab_keyboard_loop reply (Suc n) =
       (True, concat (replicate j [XGrabKeyboard, usleep (100 * 1000)]) @ [XGrabKeyboard])"
    by simp
  with nr Suc.prems(1) show ?case
    by (simp add: grab_keyboard_loop.simps [of reply n] kMaxKeyboardGrabAttempts_def
        kKeyboardGrabDelayMs_def)
qed

lemma grab_keyboard_loop_failure:
  "n < 10 \<Longrightarrow> (\<forall>k. n \<le> k \<and> k < 10 \<longrightarrow> \<not> reply k) \<Longrightarrow>
     grab_keyboard_loop reply n =
       (False, concat (replicate (9 - n) [XGrabKeyboard, usleep (100 * 1000)])
                 @ [XGrabKeyboard, XUngrabPointer])"
proof (induction reply n rule: grab_keyboard_loop.induct)
  case (1 reply n)
  note unfold = grab_keyboard_loop.simps [of reply n]
  have nr: "\<not> reply n" using "1.prems" by simp
  show ?case
  proof (cases "Suc n \<ge> kMaxKeyboardGrabAttempts")
    case True
    with "1.prems" have "9 - n = 0" by (simp add: kMaxKeyboardGrabAttempts_def)
    with nr True show ?thesis by (simp add: unfold)
  next
    case False
    then have lt: "Suc n < 10" by (simp add: kMaxKeyboardGrabAttempts_def)
    with "1.IH" nr False "1.prems"
    have "grab_keyboard_loop reply (Suc n) =
       (False, concat (replicate (9 - Suc n) [XGrabKeyboard, usleep (100 * 1000)])
                 @ [XGrabKeyboard, XUngrabPointer])"
      by simp
    moreover have "9 - n = Suc (9 - Suc n)" using lt by simp
    ultimately show ?thesis using nr False
      by (simp add: unfold kKeyboardGrabDelayMs_def)
  qed
qed

lemma grab_keyboard_loop_releases:
  "count_list (snd (grab_keyboard_loop reply n)) XUngrabPointer
     = (if fst (grab_keyboard_loop reply n) then 0 else 1)
   \<and> count_list (snd (grab_keyboard_loop reply n)) XUngrabKeyboard = 0"
proof (induction reply n rule: grab_keyboard_loop.induct)
  case (1 reply n)
  note unfold = grab_keyboard_loop.simps [of reply n]
  show ?case
  proof (cases "reply n \<or> Suc n \<ge> kMaxKeyboardGrabAttempts")
    case True
    then show ?thesis by (auto simp: unfold)
  next
    case False
    with "1.IH" show ?thesis by (simp add: unfold)
  qed
qed

section \<open>The event loop\<close>

lemma event_loop_append:
  "event_loop sel esc d (pre @ rest) =
     (if \<not> finished (fst (event_loop sel esc d pre)) \<and> \<not> aborted (fst (event_loop sel esc d pre))
      then (fst (event_loop sel esc (fst (event_loop sel esc d pre)) rest),
            snd (event_loop sel esc d pre) @ snd (event_loop sel esc (fst (event_loop sel esc d pre)) rest))
      else event_loop sel esc d pre)"
proof (induction pre arbitrary: d)
  case Nil
  then show ?case by (cases rest) simp_all
next
  case (Cons e pre)
  then show ?case by simp
qed

lemma event_loop_keeps_drag:
  assumes "\<forall>e\<in>set mid. keeps_drag esc e" "dragging d" "\<not> finished d" "\<not> aborted d"
  shows "start_x (fst (event_loop sel esc d mid)) = start_x d
       \<and> start_y (fst (event_loop sel esc d mid)) = start_y d
       \<and> dragging (fst (event_loop sel esc d mid))
       \<and> \<not> finished (fst (event_loop sel esc d mid))
       \<and> \<not> aborted (fst (event_loop sel esc d mid))"
  using assms
proof (induction mid arbitrary: d)
  case Nil
  then show ?case by simp
next
  case (Cons e mid)
  have step: "start_x (fst (handle_event sel esc d e)) = start_x d
      \<and> start_y (fst (handle_event sel esc d e)) = start_y d
      \<and> dragging (fst (handle_event sel esc d e))
      \<and> \<not> finished (fst (handle_event sel esc d e))
      \<and> \<not> aborted (fst (handle_event sel esc d e))"
    using Cons.prems by (cases e) simp_all
  with Cons show ?case by simp
qed

lemma completed_drag_exit:
  assumes run: "\<not> finished (fst (event_loop sel esc d0 pre))" "\<not> aborted (fst (event_loop sel esc d0 pre))"
    and mid: "\<forall>e\<in>set mid. keeps_drag esc e"
  shows "\<exists>d. fst (event_loop sel esc d0 (pre @ ButtonPress sx sy # mid @ ButtonRelease ex ey # post)) = d
      \<and> finished d \<and> \<not> aborted d
      \<and> start_x d = sx \<and> start_y d = sy \<and> end_x d = ex \<and> end_y d = ey"
proof -
  define d1 where "d1 = fst (event_loop sel esc d0 pre)"
  define d2 where "d2 = d1\<lparr>start_x := sx, start_y := sy, dragging := True\<rparr>"
  define d3 where "d3 = fst (event_loop sel esc d2 mid)"
  have d2: "dragging d2" "\<not> finished d2" "\<not> aborted d2" "start_x d2 = sx" "start_y d2 = sy"
    using run by (simp_all add: d1_def d2_def)
  have d3: "start_x d3 = sx" "start_y d3 = sy" "dragging d3" "\<not> finished d3" "\<not> aborted d3"
    using event_loop_keeps_drag [OF mid d2(1,2,3), of sel] d2(4,5) by (simp_all add: d3_def)
  have "fst (event_loop sel esc d2 (mid @ ButtonRelease ex ey # post))
      = d3\<lparr>end_x := ex, end_y := ey, finished := True\<rparr>"
    using d3 by (simp add: event_loop_append d3_def [symmetric] split del: if_split) (cases post; simp)
  then have "fst (event_loop sel esc d1 (ButtonPress sx sy # mid @ ButtonRelease ex ey # post))
      = d3\<lparr>end_x := ex, end_y := ey, finished := True\<rparr>"
    using run by (simp add: d1_def [symmetric] d2_def [symmetric])
  then have "fst (event_loop sel esc d0 (pre @ ButtonPress sx sy # mid @ ButtonRelease ex ey # post))
      = d3\<lparr>end_x := ex, end_y := ey, finished := True\<rparr>"
    using run by (simp only: event_loop_append [of sel esc d0 pre] d1_def [symmetric]) simp
  with d3 show ?thesis by simp
qed

section \<open>SelectRegion: the grabs\<close>

lemma SelectRegion_grabbed:
  assumes "pointer_grab_reply w" "N < 10" "\<forall>k<N. \<not> keyboard_grab_reply w k" "keyboard_grab_reply w N"
  shows "SelectRegion sel w x y width height m =
     map_option (\<lambda>(ok, m', calls). (ok, m',
         XGrabPointer # concat (replicate N [XGrabKeyboard, usleep (100 * 1000)]) @ XGrabKeyboard # calls))
       (select_with_grabs sel w x y width height m)"
proof -
  have "grab_keyboard_loop (keyboard_grab_reply w) 0 =
       (True, concat (replicate N [XGrabKeyboard, usleep (100 * 1000)]) @ [XGrabKeyboard])"
    using grab_keyboard_loop_success [of 0 N "keyboard_grab_reply w"] assms by simp
  with assms(1) show ?thesis
    by (cases "select_with_grabs sel w x y width height m") (auto simp: SelectRegion_def)
qed

lemma SelectRegion_keyboard_exhausted:
  assumes "pointer_grab_reply w" "\<forall>k<10. \<not> keyboard_grab_reply w k"
  shows "SelectRegion sel w x y width height m =
     Some (False, m, XGrabPointer # concat (replicate 9 [XGrabKeyboard, usleep (100 * 1000)])
                       @ [XGrabKeyboard, XUngrabPointer])"
proof -
  have "grab_keyboard_loop (keyboard_grab_reply w) 0 =
       (False, concat (replicate (9 - 0) [XGrabKeyboard, usleep (100 * 1000)])
                 @ [XGrabKeyboard, XUngrabPointer])"
    using assms(2) by (intro grab_keyboard_loop_failure) simp_all
  with assms(1) show ?thesis
    by (simp add: SelectRegion_def)
qed

lemma replicate_3: "replicate 3 x = [x, x, x]"
  by (simp add: numeral_3_eq_3)

lemma replicate_9: "replicate 9 x = [x, x, x, x, x, x, x, x, x]"
  by (simp add: eval_nat_numeral)

section \<open>Calls of the selection\<close>

lemma handle_event_border_calls:
  "\<forall>c\<in>set (snd (handle_event sel esc d e)). border_call c"
  by (cases e) (auto simp: PaintWindow_def ConfigureWindows_def MoveWindowsOffscreen_def Let_def)

lemma event_loop_border_calls:
  "\<forall>c\<in>set (snd (event_loop sel esc d evs)). border_call c"
proof (induction evs arbitrary: d)
  case Nil
  then show ?case by simp
next
  case (Cons e evs)
  then show ?case using handle_event_border_calls [of sel esc d e] by auto
qed

lemma count_list_border_calls:
  assumes "\<forall>c\<in>set cs. border_call c" "\<not> border_call c"
  shows "count_list cs c = 0"
  using assms by (induction cs) auto

lemma border_call_not_capture: "border_call c \<Longrightarrow> \<not> capture_call c"
  by (cases c) simp_all

lemma grab_keyboard_loop_no_capture:
  "\<forall>c\<in>set (snd (grab_keyboard_loop reply n)). \<not> capture_call c"
proof (induction reply n rule: grab_keyboard_loop.induct)
  case (1 reply n)
  note unfold = grab_keyboard_loop.simps [of reply n]
  show ?case
  proof (cases "reply n \<or> Suc n \<ge> kMaxKeyboardGrabAttempts")
    case True
    then show ?thesis by (auto simp: unfold)
  next
    case False
    with "1.IH" show ?thesis by (simp add: unfold)
  qed
qed

lemma select_with_grabs_no_capture:
  assumes "select_with_grabs sel w x y width height m = Some (ok, m', calls)"
  shows "\<forall>c\<in>set calls. \<not> capture_call c"
proof -
  obtain d lc where lc: "event_loop sel (escape_keycode w) drag_init (events w) = (d, lc)"
    by (cases "event_loop sel (escape_keycode w) drag_init (events w)")
  have "\<forall>c\<in>set lc. border_call c"
    using event_loop_border_calls [of sel "escape_keycode w" drag_init "events w"] lc by simp
  then have "\<forall>c\<in>set lc. \<not> capture_call c"
    using border_call_not_capture by blast
  with assms lc show ?thesis
    by (auto simp: select_with_grabs_def MoveWindowsOffscreen_def Let_def split: if_splits)
qed

lemma SelectRegion_no_capture:
  assumes "SelectRegion sel w x y width height m = Some (ok, m', calls)"
  shows "\<forall>c\<in>set calls. \<not> capture_call c"
proof (cases "pointer_grab_reply w")
  case False
  with assms show ?thesis by (auto simp: SelectRegion_def)
next
  case True
  obtain g gc where g: "grab_keyboard_loop (keyboard_grab_reply w) 0 = (g, gc)"
    by (cases "grab_keyboard_loop (keyboard_grab_reply w) 0")
  have gc: "\<forall>c\<in>set gc. \<not> capture_call c"
    using grab_keyboard_loop_no_capture [of "keyboard_grab_reply w" 0] g by simp
  show ?thesis
  proof (cases g)
    case False
    with assms True g gc show ?thesis by (auto simp: SelectRegion_def)
  next
    case kbd: True
    have "\<exists>sc. select_with_grabs sel w x y width height m = Some (ok, m', sc) \<and> calls = XGrabPointer # gc @ sc"
      using assms True g kbd by (auto simp: SelectRegion_def split: option.splits)
    then obtain sc where sc: "select_with_grabs sel w x y width height m = Some (ok, m', sc)"
        "calls = XGrabPointer # gc @ sc" by blast
    from select_with_grabs_no_capture [OF sc(1)] sc(2) gc show ?thesis by auto
  qed
qed

lemma RegionSelector_new_no_capture:
  "\<forall>c\<in>set (snd (RegionSelector_new w)). \<not> capture_call c"
  by (cases "border_window_ids w") (simp add: RegionSelector_new_def CreateWindow_def)

lemma RegionSelector_delete_no_capture:
  "\<forall>c\<in>set (RegionSelector_delete sel). \<not> capture_call c"
  by (simp add: RegionSelector_delete_def)

section \<open>The paths of main\<close>

lemma main_usage: "argc w \<noteq> 2 \<Longrightarrow> main w = Some (Return 1, [ShowUsageWithFlags])"
  by (simp add: main_def)

lemma main_no_display:
  "argc w = 2 \<Longrightarrow> \<not> display_opens w \<Longrightarrow> main w = Some (CheckFailed CHECK_display, [XOpenDisplay])"
  by (simp add: main_def)

lemma main_no_window:
  "argc w = 2 \<Longrightarrow> display_opens w \<Longrightarrow> capture_window w = None \<Longrightarrow>
     main w = Some (CheckFailed CHECK_window, [XOpenDisplay])"
  by (simp add: main_def)

lemma main_no_geometry:
  "argc w = 2 \<Longrightarrow> display_opens w \<Longrightarrow> capture_window w = Some win \<Longrightarrow>
   geometry_reply w win = None \<Longrightarrow>
     main w = Some (CheckFailed CHECK_XGetGeometry, [XOpenDisplay, XGetGeometry win])"
  by (simp add: main_def)

lemma main_window:
  "argc w = 2 \<Longrightarrow> display_opens w \<Longrightarrow> capture_window w = Some win \<Longrightarrow>
   geometry_reply w win = Some (gw, gh) \<Longrightarrow> \<not> FLAGS_region w \<Longrightarrow>
     main w = Some (fst (capture_and_save w win ((\<lambda>a. 0)(shot_width := gw, shot_height := gh))),
                    [XOpenDisplay, XGetGeometry win]
                      @ snd (capture_and_save w win ((\<lambda>a. 0)(shot_width := gw, shot_height := gh))))"
  by (simp add: main_def Let_def)

lemma main_region:
  "argc w = 2 \<Longrightarrow> display_opens w \<Longrightarrow> capture_window w = Some win \<Longrightarrow>
   geometry_reply w win = Some (gw, gh) \<Longrightarrow> FLAGS_region w \<Longrightarrow>
     main w =
       (case SelectRegion (fst (RegionSelector_new w)) w shot_x shot_y shot_width shot_height
               ((\<lambda>a. 0)(shot_width := gw, shot_height := gh)) of
          None \<Rightarrow> None
        | Some (ok, m', calls) \<Rightarrow>
            if \<not> ok
            then Some (Return 1, [XOpenDisplay, XGetGeometry win] @ snd (RegionSelector_new w) @ calls
                         @ RegionSelector_delete (fst (RegionSelector_new w)))
            else Some (fst (capture_and_save w win m'),
                       ([XOpenDisplay, XGetGeometry win] @ snd (RegionSelector_new w) @ calls
                         @ RegionSelector_delete (fst (RegionSelector_new w)))
                       @ snd (capture_and_save w win m')))"
  by (simp add: main_def Let_def split: option.split prod.split)

text \<open>A run of \<^verbatim>\<open>main\<close> that ends either ends before the capture, with no capture
  call made and not with 0, or consists of calls that are no capture calls followed by
  the capture on the chosen window.\<close>

lemma main_cases:
  assumes "main w = Some (out, calls)"
  shows "((\<forall>c\<in>set calls. \<not> capture_call c) \<and> out \<noteq> Return 0)
       \<or> (\<exists>before win m. calls = before @ snd (capture_and_save w win m)
             \<and> out = fst (capture_and_save w win m)
             \<and> capture_window w = Some win
             \<and> (\<forall>c\<in>set before. \<not> capture_call c))"
proof -
  consider (usage) "argc w \<noteq> 2"
    | (display) "argc w = 2" "\<not> display_opens w"
    | (window) "argc w = 2" "display_opens w" "capture_window w = None"
    | (geometry) win where "argc w = 2" "display_opens w" "capture_window w = Some win"
        "geometry_reply w win = None"
    | (plain) win gw gh where "argc w = 2" "display_opens w" "capture_window w = Some win"
        "geometry_reply w win = Some (gw, gh)" "\<not> FLAGS_region w"
    | (region) win gw gh where "argc w = 2" "display_opens w" "capture_window w = Some win"
        "geometry_reply w win = Some (gw, gh)" "FLAGS_region w"
  proof (cases "capture_window w")
    case None
    then show ?thesis using usage display window by blast
  next
    case (Some win)
    show ?thesis
    proof (cases "geometry_reply w win")
      case None
      with Some show ?thesis using usage display geometry by blast
    next
      case g: (Some p)
      obtain gw gh where "p = (gw, gh)" by (cases p)
      with Some g show ?thesis using usage display plain region by blast
    qed
  qed
  then show ?thesis
  proof cases
    case usage
    with assms have "(\<forall>c\<in>set calls. \<not> capture_call c) \<and> out \<noteq> Return 0"
      by (auto simp: main_usage)
    then show ?thesis ..
  next
    case display
    with assms have "(\<forall>c\<in>set calls. \<not> capture_call c) \<and> out \<noteq> Return 0"
      by (auto simp: main_no_display)
    then show ?thesis ..
  next
    case window
    with assms have "(\<forall>c\<in>set calls. \<not> capture_call c) \<and> out \<noteq> Return 0"
      by (auto simp: main_no_window)
    then show ?thesis ..
  next
    case geometry
    with assms have "(\<forall>c\<in>set calls. \<not> capture_call c) \<and> out \<noteq> Return 0"
      by (auto simp: main_no_geometry)
    then show ?thesis ..
  next
    case plain
    let ?m = "(\<lambda>a. 0::cint)(shot_width := gw, shot_height := gh)"
    from assms main_window [OF plain]
    have "calls = [XOpenDisplay, XGetGeometry win] @ snd (capture_and_save w win ?m)"
        "out = fst (capture_and_save w win ?m)"
      by simp_all
    moreover have "\<forall>c\<in>set [XOpenDisplay, XGetGeometry win]. \<not> capture_call c"
      by simp
    ultimately have "\<exists>before win m. calls = before @ snd (capture_and_save w win m)
             \<and> out = fst (capture_and_save w win m)
             \<and> capture_window w = Some win
             \<and> (\<forall>c\<in>set before. \<not> capture_call c)"
      using plain(3)
      by (intro exI [of _ "[XOpenDisplay, XGetGeometry win]"] exI [of _ win] exI [of _ ?m] conjI)
    then show ?thesis ..
  next
    case region
    let ?m = "(\<lambda>a. 0::cint)(shot_width := gw, shot_height := gh)"
    let ?sel = "fst (RegionSelector_new w)"
    note unfold = main_region [OF region]
    obtain ok m' sc where sr: "SelectRegion ?sel w shot_x shot_y shot_width shot_height ?m = Some (ok, m', sc)"
      using assms unfold
      by (cases "SelectRegion ?sel w shot_x shot_y shot_width shot_height ?m") auto
    let ?before = "[XOpenDisplay, XGetGeometry win] @ snd (RegionSelector_new w) @ sc
            @ RegionSelector_delete ?sel"
    have nb: "\<forall>c\<in>set ?before. \<not> capture_call c"
      using SelectRegion_no_capture [OF sr] RegionSelector_new_no_capture [of w]
        RegionSelector_delete_no_capture [of ?sel]
      by (simp add: ball_Un)
    show ?thesis
    proof (cases ok)
      case False
      with assms unfold sr have "calls = ?before" "out = Return 1"
        by simp_all
      with nb have "(\<forall>c\<in>set calls. \<not> capture_call c) \<and> out \<noteq> Return 0"
        by simp
      then show ?thesis ..
    next
      case True
      with assms unfold sr
      have "calls = ?before @ snd (capture_and_save w win m')" "out = fst (capture_and_save w win m')"
        by simp_all
      with nb region(3)
      have "\<exists>before win m. calls = before @ snd (capture_and_save w win m)
             \<and> out = fst (capture_and_save w win m)
             \<and> capture_window w = Some win
             \<and> (\<forall>c\<in>set before. \<not> capture_call c)"
        by (intro exI [of _ ?before] exI [of _ win] exI [of _ m'] conjI)
      then show ?thesis ..
    qed
  qed
qed

section \<open>The capture\<close>

lemma capture_and_save_no_image:
  assumes "image_reply w win (m shot_x) (m shot_y) (m shot_width) (m shot_height) = None"
  shows "capture_and_save w win m
     = (CheckFailed CHECK_image, [XGetImage win (m shot_x) (m shot_y) (m shot_width) (m shot_height)])"
  using assms by (simp add: capture_and_save_def)

lemma capture_and_save_bad_depth:
  assumes "image_reply w win (m shot_x) (m shot_y) (m shot_width) (m shot_height) = Some img"
    and "img_depth img \<noteq> 24" "img_depth img \<noteq> 32"
  shows "capture_and_save w win m
     = (CheckFailed CHECK_depth, [XGetImage win (m shot_x) (m shot_y) (m shot_width) (m shot_height)])"
  using assms by (simp add: capture_and_save_def)

lemma capture_and_save_good_depth:
  assumes "image_reply w win (m shot_x) (m shot_y) (m shot_width) (m shot_height) = Some img"
    and "img_depth img = 24 \<or> img_depth img = 32"
  shows "capture_and_save w win m
     = (if \<not> surface_created w then CheckFailed CHECK_surface
        else if \<not> png_written w then CheckFailed CHECK_write_to_png else Return 0,
        [XGetImage win (m shot_x) (m shot_y) (m shot_width) (m shot_height),
         XCreateWindow WhitePixel (m shot_x) (m shot_y) (m shot_width) (m shot_height),
         XInternAtom, XChangeProperty (feedback_window_id w) 1073741823,
         XMapWindow (feedback_window_id w), XFlush, usleep (100 * 1000),
         XDestroyWindow (feedback_window_id w), XFlush,
         cairo_image_surface_create_for_data
           (if img_depth img = 24 then CAIRO_FORMAT_RGB24 else CAIRO_FORMAT_ARGB32)
           (img_width img) (img_height img) (img_bytes_per_line img)]
        @ (if \<not> surface_created w then []
           else if \<not> png_written w then [cairo_surface_write_to_png (filename w)]
           else [cairo_surface_write_to_png (filename w), cairo_surface_destroy,
                 XDestroyImage, XCloseDisplay]))"
  using assms
  by (auto simp: capture_and_save_def Let_def CreateVisualFeedbackWindow_def
      kVisualFeedbackWindowDisplayTimeMs_def)

lemma capture_and_save_XGetImage:
  assumes "XGetImage win' x y width height \<in> set (snd (capture_and_save w win m))"
  shows "win' = win \<and> x = m shot_x \<and> y = m shot_y \<and> width = m shot_width \<and> height = m shot_height"
proof (cases "image_reply w win (m shot_x) (m shot_y) (m shot_width) (m shot_height)")
  case None
  with assms show ?thesis by (simp add: capture_and_save_no_image)
next
  case (Some img)
  show ?thesis
  proof (cases "img_depth img = 24 \<or> img_depth img = 32")
    case True
    with assms Some show ?thesis
      by (simp add: capture_and_save_good_depth split: if_splits)
  next
    case False
    with assms Some show ?thesis by (simp add: capture_and_save_bad_depth)
  qed
qed

lemma capture_and_save_success:
  assumes "fst (capture_and_save w win m) = Return 0"
  shows "\<exists>img. image_reply w win (m shot_x) (m shot_y) (m shot_width) (m shot_height) = Some img
      \<and> snd (capture_and_save w win m) =
        [XGetImage win (m shot_x) (m shot_y) (m shot_width) (m shot_height),
         XCreateWindow WhitePixel (m shot_x) (m shot_y) (m shot_width) (m shot_height),
         XInternAtom, XChangeProperty (feedback_window_id w) 1073741823,
         XMapWindow (feedback_window_id w), XFlush, usleep (100 * 1000),
         XDestroyWindow (feedback_window_id w), XFlush,
         cairo_image_surface_create_for_data
           (if img_depth img = 24 then CAIRO_FORMAT_RGB24 else CAIRO_FORMAT_ARGB32)
           (img_width img) (img_height img) (img_bytes_per_line img),
         cairo_surface_write_to_png (filename w), cairo_surface_destroy,
         XDestroyImage, XCloseDisplay]"
proof (cases "image_reply w win (m shot_x) (m shot_y) (m shot_width) (m shot_height)")
  case None
  with assms show ?thesis by (simp add: capture_and_save_no_image)
next
  case (Some img)
  show ?thesis
  proof (cases "img_depth img = 24 \<or> img_depth img = 32")
    case True
    with assms Some show ?thesis
      by (simp add: capture_and_save_good_depth split: if_splits)
  next
    case False
    with assms Some show ?thesis by (simp add: capture_and_save_bad_depth)
  qed
qed

section \<open>Example runs\<close>

lemma demo_window_run:
  "main ((demo_world [])\<lparr>FLAGS_region := False\<rparr>)
     = Some (Return 0,
         [XOpenDisplay, XGetGeometry 1, XGetImage 1 0 0 1920 1080,
          XCreateWindow WhitePixel 0 0 1920 1080, XInternAtom, XChangeProperty 14 1073741823,
          XMapWindow 14, XFlush, usleep 100000, XDestroyWindow 14, XFlush,
          cairo_image_surface_create_for_data CAIRO_FORMAT_RGB24 1920 1080 7680,
          cairo_surface_write_to_png ''shot.png'', cairo_surface_destroy,
          XDestroyImage, XCloseDisplay])"
  by (simp add: main_def capture_window_def capture_and_save_def Let_def
      CreateVisualFeedbackWindow_def kVisualFeedbackWindowDisplayTimeMs_def demo_world_def
      shot_x_def shot_y_def shot_width_def shot_height_def)

lemma demo_depth16_run:
  "main ((demo_world [])\<lparr>FLAGS_region := False,
       image_reply := (\<lambda>win x y width height.
         Some \<lparr>img_width = width, img_height = height, img_depth = 16,
               img_bytes_per_line = 2 * width\<rparr>)\<rparr>)
     = Some (CheckFailed CHECK_depth, [XOpenDisplay, XGetGeometry 1, XGetImage 1 0 0 1920 1080])"
  by (simp add: main_def capture_window_def capture_and_save_def Let_def demo_world_def
      shot_x_def shot_y_def shot_width_def shot_height_def)

lemma demo_region_not_hex_run:
  "map_option fst (main ((demo_world [ButtonPress 50 50, ButtonRelease 10 10])
                              \<lparr>FLAGS_window := ''not-hex''\<rparr>))
     = Some (Return 0)"
  by (simp add: main_def capture_window_def capture_and_save_def Let_def
      SelectRegion_def select_with_grabs_def grab_keyboard_loop.simps [of _ 0]
      RegionSelector_new_def drag_init_def demo_world_def
      shot_x_def shot_y_def shot_width_def shot_height_def)

section \<open>The window flag under the region flag\<close>

lemma select_with_grabs_ignores_window_flag:
  "select_with_grabs sel (w\<lparr>FLAGS_window := s\<rparr>) x y width height m
     = select_with_grabs sel w x y width height m"
  by (simp add: select_with_grabs_def)

lemma SelectRegion_ignores_window_flag:
  "SelectRegion sel (w\<lparr>FLAGS_window := s\<rparr>) x y width height m = SelectRegion sel w x y width height m"
  by (simp add: SelectRegion_def select_with_grabs_ignores_window_flag
      cong: prod.case_cong bool.case_cong)

lemma capture_and_save_ignores_window_flag:
  "capture_and_save (w\<lparr>FLAGS_window := s\<rparr>) win m = capture_and_save w win m"
  by (simp add: capture_and_save_def Let_def cong: option.case_cong if_cong)

lemma RegionSelector_new_ignores_window_flag:
  "RegionSelector_new (w\<lparr>FLAGS_window := s\<rparr>) = RegionSelector_new w"
  by (simp add: RegionSelector_new_def)

text \<open>A run under the region flag that gets past the opening of the display asks for
  the geometry of the root window, and what it captures it captures from the root
  window.\<close>

lemma region_run_shape:
  assumes region: "FLAGS_region w" and run: "main w = Some (out, calls)"
    and env: "argc w = 2" "display_opens w"
  shows "(out = CheckFailed CHECK_XGetGeometry \<and> calls = [XOpenDisplay, XGetGeometry (root_window w)])
       \<or> (\<exists>rest. out = Return 1 \<and> calls = XOpenDisplay # XGetGeometry (root_window w) # rest
             \<and> (\<forall>c\<in>set rest. \<not> capture_call c))
       \<or> (\<exists>before m'. out = fst (capture_and_save w (root_window w) m')
             \<and> calls = XOpenDisplay # XGetGeometry (root_window w) # before
                 @ snd (capture_and_save w (root_window w) m'))"
proof -
  have cw: "capture_window w = Some (root_window w)"
    using region by (simp add: capture_window_def)
  show ?thesis
  proof (cases "geometry_reply w (root_window w)")
    case None
    with run env cw show ?thesis by (simp add: main_no_geometry)
  next
    case (Some g)
    obtain gw gh where g: "g = (gw, gh)" by (cases g)
    let ?m = "(\<lambda>a. 0::cint)(shot_width := gw, shot_height := gh)"
    let ?sel = "fst (RegionSelector_new w)"
    from Some g have geo: "geometry_reply w (root_window w) = Some (gw, gh)" by simp
    note unfold = main_region [OF env cw geo region]
    obtain ok m' sc where sr: "SelectRegion ?sel w shot_x shot_y shot_width shot_height ?m = Some (ok, m', sc)"
      using run unfold
      by (cases "SelectRegion ?sel w shot_x shot_y shot_width shot_height ?m") auto
    let ?rest = "snd (RegionSelector_new w) @ sc @ RegionSelector_delete ?sel"
    have nb: "\<forall>c\<in>set ?rest. \<not> capture_call c"
      using SelectRegion_no_capture [OF sr] RegionSelector_new_no_capture [of w]
        RegionSelector_delete_no_capture [of ?sel]
      by (simp add: ball_Un)
    show ?thesis
    proof (cases ok)
      case False
      with run unfold sr have "out = Return 1" "calls = XOpenDisplay # XGetGeometry (root_window w) # ?rest"
        by simp_all
      with nb have "\<exists>rest. out = Return 1 \<and> calls = XOpenDisplay # XGetGeometry (root_window w) # rest
             \<and> (\<forall>c\<in>set rest. \<not> capture_call c)"
        by blast
      then show ?thesis by blast
    next
      case True
      with run unfold sr have "out = fst (capture_and_save w (root_window w) m')"
          "calls = XOpenDisplay # XGetGeometry (root_window w) # ?rest
                 @ snd (capture_and_save w (root_window w) m')"
        by simp_all
      then have "\<exists>before m'. out = fst (capture_and_save w (root_window w) m')
             \<and> calls = XOpenDisplay # XGetGeometry (root_window w) # before
                 @ snd (capture_and_save w (root_window w) m')"
        by blast
      then show ?thesis by blast
    qed
  qed
qed

section \<open>Reading the window flag\<close>




lemma capture_and_save_not_window_check:
  "fst (capture_and_save w win m) \<noteq> CheckFailed CHECK_window"
  by (simp add: capture_and_save_def Let_def split: option.split)

lemma capture_and_save_reads:
  "\<exists>tail. snd (capture_and_save w win m)
     = XGetImage win (m shot_x) (m shot_y) (m shot_width) (m shot_height) # tail"
  by (simp add: capture_and_save_def Let_def split: option.split)

section \<open>Claims\<close>

text \<open>
  Claim C1. A completed drag whose normalized rectangle has width 0 or height 0 should
  make \<^verbatim>\<open>SelectRegion\<close> return false. It does not: the last line tests the pointers
  \<open>width\<close> and \<open>height\<close>, which are never null, so a click without motion at
  \<open>(5, 5)\<close> stores the rectangle \<open>(5, 5, 0, 0)\<close> and returns true.
\<close>

theorem SelectRegion_zero_area_returns_true:
  "map_option (\<lambda>(ok, m', calls). (ok, m' shot_x, m' shot_y, m' shot_width, m' shot_height))
     (SelectRegion demo_selector (demo_world [ButtonPress 5 5, ButtonRelease 5 5])
        shot_x shot_y shot_width shot_height (\<lambda>a. 0))
   = Some (True, 5, 5, 0, 0)"
  by (simp add: SelectRegion_def select_with_grabs_def demo_world_def demo_selector_def
      grab_keyboard_loop.simps [of _ 0] drag_init_def min_int_def max_int_def
      shot_x_def shot_y_def shot_width_def shot_height_def word_sless_alt)

text \<open>
  Claim C3. With the pointer grabbed, the keyboard grab is attempted at most 10 times
  with \<^verbatim>\<open>usleep(100 * 1000)\<close> between two attempts. If the first \<open>N < 10\<close> attempts
  fail and attempt \<open>N + 1\<close> succeeds, \<^verbatim>\<open>SelectRegion\<close> goes on with the selection
  (\<open>select_with_grabs\<close>, which runs the event loop) after exactly \<open>N\<close> delays; if all 10
  attempts fail, it releases the pointer grab and returns false, the memory unchanged.
\<close>

theorem keyboard_grab_retried:
  assumes "pointer_grab_reply w"
  shows "(\<forall>N<10. (\<forall>k<N. \<not> keyboard_grab_reply w k) \<and> keyboard_grab_reply w N \<longrightarrow>
            SelectRegion sel w x y width height m =
              map_option (\<lambda>(ok, m', calls). (ok, m',
                  XGrabPointer # concat (replicate N [XGrabKeyboard, usleep (100 * 1000)])
                    @ XGrabKeyboard # calls))
                (select_with_grabs sel w x y width height m))
       \<and> ((\<forall>k<10. \<not> keyboard_grab_reply w k) \<longrightarrow>
            SelectRegion sel w x y width height m =
              Some (False, m, XGrabPointer # concat (replicate 9 [XGrabKeyboard, usleep (100 * 1000)])
                                @ [XGrabKeyboard, XUngrabPointer]))"
  using assms SelectRegion_grabbed [of w _ sel x y width height m]
    SelectRegion_keyboard_exhausted [of w sel x y width height m]
  by blast

theorem keyboard_grab_retried_witness:
  "SelectRegion demo_selector ((demo_world [KeyPress 9])\<lparr>keyboard_grab_reply := (\<lambda>k. 3 \<le> k)\<rparr>)
       shot_x shot_y shot_width shot_height (\<lambda>a. 0)
     = Some (False, (\<lambda>a. 0),
         [XGrabPointer,
          XGrabKeyboard, usleep 100000, XGrabKeyboard, usleep 100000, XGrabKeyboard, usleep 100000,
          XGrabKeyboard,
          XMoveResizeWindow 10 (- 1) (- 1) 1 1, XMoveResizeWindow 11 (- 1) (- 1) 1 1,
          XMoveResizeWindow 12 (- 1) (- 1) 1 1, XMoveResizeWindow 13 (- 1) (- 1) 1 1,
          XMapWindow 10, XMapWindow 11, XMapWindow 12, XMapWindow 13,
          XUngrabKeyboard, XUngrabPointer,
          XUnmapWindow 10, XUnmapWindow 11, XUnmapWindow 12, XUnmapWindow 13])
   \<and> SelectRegion demo_selector ((demo_world [KeyPress 9])\<lparr>keyboard_grab_reply := (\<lambda>k. False)\<rparr>)
       shot_x shot_y shot_width shot_height (\<lambda>a. 0)
     = Some (False, (\<lambda>a. 0),
         [XGrabPointer,
          XGrabKeyboard, usleep 100000, XGrabKeyboard, usleep 100000, XGrabKeyboard, usleep 100000,
          XGrabKeyboard, usleep 100000, XGrabKeyboard, usleep 100000, XGrabKeyboard, usleep 100000,
          XGrabKeyboard, usleep 100000, XGrabKeyboard, usleep 100000, XGrabKeyboard, usleep 100000,
          XGrabKeyboard, XUngrabPointer])"
proof -
  let ?w1 = "(demo_world [KeyPress 9])\<lparr>keyboard_grab_reply := (\<lambda>k. 3 \<le> k)\<rparr>"
  let ?w2 = "(demo_world [KeyPress 9])\<lparr>keyboard_grab_reply := (\<lambda>k. False)\<rparr>"
  have p1: "pointer_grab_reply ?w1" and p2: "pointer_grab_reply ?w2"
    by (simp_all add: demo_world_def)
  have k1: "(\<forall>k<3. \<not> keyboard_grab_reply ?w1 k) \<and> keyboard_grab_reply ?w1 3"
    by (simp add: demo_world_def)
  have k2: "\<forall>k<10. \<not> keyboard_grab_reply ?w2 k"
    by (simp add: demo_world_def)
  have sel: "select_with_grabs demo_selector ?w1 shot_x shot_y shot_width shot_height (\<lambda>a. 0)
     = Some (False, (\<lambda>a. 0),
         [XMoveResizeWindow 10 (- 1) (- 1) 1 1, XMoveResizeWindow 11 (- 1) (- 1) 1 1,
          XMoveResizeWindow 12 (- 1) (- 1) 1 1, XMoveResizeWindow 13 (- 1) (- 1) 1 1,
          XMapWindow 10, XMapWindow 11, XMapWindow 12, XMapWindow 13,
          XUngrabKeyboard, XUngrabPointer,
          XUnmapWindow 10, XUnmapWindow 11, XUnmapWindow 12, XUnmapWindow 13])"
    by (simp add: select_with_grabs_def demo_world_def demo_selector_def drag_init_def
        MoveWindowsOffscreen_def)
  have three: "(3::nat) < 10" by simp
  from keyboard_grab_retried [OF p1, of demo_selector shot_x shot_y shot_width shot_height "\<lambda>a. 0"]
  have "SelectRegion demo_selector ?w1 shot_x shot_y shot_width shot_height (\<lambda>a. 0) =
          map_option (\<lambda>(ok, m', calls). (ok, m',
              XGrabPointer # concat (replicate 3 [XGrabKeyboard, usleep (100 * 1000)])
                @ XGrabKeyboard # calls))
            (select_with_grabs demo_selector ?w1 shot_x shot_y shot_width shot_height (\<lambda>a. 0))"
    using k1 three by blast
  then have a: "SelectRegion demo_selector ?w1 shot_x shot_y shot_width shot_height (\<lambda>a. 0)
     = Some (False, (\<lambda>a. 0),
         [XGrabPointer,
          XGrabKeyboard, usleep 100000, XGrabKeyboard, usleep 100000, XGrabKeyboard, usleep 100000,
          XGrabKeyboard,
          XMoveResizeWindow 10 (- 1) (- 1) 1 1, XMoveResizeWindow 11 (- 1) (- 1) 1 1,
          XMoveResizeWindow 12 (- 1) (- 1) 1 1, XMoveResizeWindow 13 (- 1) (- 1) 1 1,
          XMapWindow 10, XMapWindow 11, XMapWindow 12, XMapWindow 13,
          XUngrabKeyboard, XUngrabPointer,
          XUnmapWindow 10, XUnmapWindow 11, XUnmapWindow 12, XUnmapWindow 13])"
    by (simp only: sel) (simp add: replicate_3)
  from keyboard_grab_retried [OF p2, of demo_selector shot_x shot_y shot_width shot_height "\<lambda>a. 0"] k2
  have "SelectRegion demo_selector ?w2 shot_x shot_y shot_width shot_height (\<lambda>a. 0) =
      Some (False, (\<lambda>a. 0), XGrabPointer # concat (replicate 9 [XGrabKeyboard, usleep (100 * 1000)])
                                @ [XGrabKeyboard, XUngrabPointer])"
    by blast
  then have b: "SelectRegion demo_selector ?w2 shot_x shot_y shot_width shot_height (\<lambda>a. 0)
     = Some (False, (\<lambda>a. 0),
         [XGrabPointer,
          XGrabKeyboard, usleep 100000, XGrabKeyboard, usleep 100000, XGrabKeyboard, usleep 100000,
          XGrabKeyboard, usleep 100000, XGrabKeyboard, usleep 100000, XGrabKeyboard, usleep 100000,
          XGrabKeyboard, usleep 100000, XGrabKeyboard, usleep 100000, XGrabKeyboard, usleep 100000,
          XGrabKeyboard, XUngrabPointer])"
    by (simp add: replicate_9)
  from a b show ?thesis by (rule conjI)
qed

text \<open>
  Claim C2. A completed drag: the loop is running, the button is pressed at
  \<open>(sx, sy)\<close>, events follow that neither start, end nor cancel a drag, and the button
  is released at \<open>(ex, ey)\<close>. With both grabs obtained and the four result pointers
  different, \<^verbatim>\<open>SelectRegion\<close> returns and has stored
  \<open>x = min sx ex\<close>, \<open>y = min sy ey\<close>, \<open>width = |sx - ex|\<close> and
  \<open>height = |sy - ey|\<close> (\<open>x\<close> and \<open>y\<close> read as \<^verbatim>\<open>int\<close>, \<open>width\<close> and
  \<open>height\<close> as \<^verbatim>\<open>unsigned int\<close>).
\<close>

theorem SelectRegion_normalizes_corners:
  assumes grabs: "pointer_grab_reply w" "\<exists>k<10. keyboard_grab_reply w k"
    and evs: "events w = pre @ ButtonPress sx sy # mid @ ButtonRelease ex ey # post"
    and run: "\<not> finished (fst (event_loop sel (escape_keycode w) drag_init pre))"
             "\<not> aborted (fst (event_loop sel (escape_keycode w) drag_init pre))"
    and mid: "\<forall>e\<in>set mid. keeps_drag (escape_keycode w) e"
    and ptrs: "distinct [x, y, width, height]"
  shows "\<exists>ok m' calls. SelectRegion sel w x y width height m = Some (ok, m', calls)
      \<and> sint (m' x) = min (sint sx) (sint ex)
      \<and> sint (m' y) = min (sint sy) (sint ey)
      \<and> uint (m' width) = \<bar>sint sx - sint ex\<bar>
      \<and> uint (m' height) = \<bar>sint sy - sint ey\<bar>"
proof -
  obtain d where d: "fst (event_loop sel (escape_keycode w) drag_init (events w)) = d"
      "finished d" "\<not> aborted d" "start_x d = sx" "start_y d = sy" "end_x d = ex" "end_y d = ey"
    using completed_drag_exit [OF run mid, of sx sy ex ey post] evs by auto
  obtain lc where lc: "event_loop sel (escape_keycode w) drag_init (events w) = (d, lc)"
    using d(1) by (cases "event_loop sel (escape_keycode w) drag_init (events w)") simp
  obtain gc where gc: "grab_keyboard_loop (keyboard_grab_reply w) 0 = (True, gc)"
    using grab_keyboard_loop_fst [of 0 "keyboard_grab_reply w"] grabs(2)
    by (cases "grab_keyboard_loop (keyboard_grab_reply w) 0") auto
  define m' where "m' = (((m(x := min_int sx ex))(y := min_int sy ey))
      (width := max_int sx ex - min_int sx ex))(height := max_int sy ey - min_int sy ey)"
  have "\<exists>calls. SelectRegion sel w x y width height m = Some (width > 0 \<and> height > 0, m', calls)"
    using grabs(1) gc lc d ptrs
    by (simp add: SelectRegion_def select_with_grabs_def Let_def m'_def)
  moreover have "m' x = min_int sx ex" "m' y = min_int sy ey"
      "m' width = max_int sx ex - min_int sx ex" "m' height = max_int sy ey - min_int sy ey"
    using ptrs by (auto simp: m'_def)
  ultimately show ?thesis
    by (auto simp: sint_min_int uint_max_minus_min)
qed

theorem SelectRegion_normalizes_corners_witness:
  "\<exists>ok m' calls.
      SelectRegion demo_selector (demo_world [ButtonPress 50 50, MotionNotify 20 20, ButtonRelease 10 10])
        shot_x shot_y shot_width shot_height (\<lambda>a. 0) = Some (ok, m', calls)
      \<and> sint (m' shot_x) = 10 \<and> sint (m' shot_y) = 10
      \<and> uint (m' shot_width) = 40 \<and> uint (m' shot_height) = 40"
proof -
  let ?w = "demo_world [ButtonPress 50 50, MotionNotify 20 20, ButtonRelease 10 10]"
  have ptr: "pointer_grab_reply ?w"
    by (simp add: demo_world_def)
  have "(0::nat) < 10 \<and> keyboard_grab_reply ?w 0"
    by (simp add: demo_world_def)
  then have kbd: "\<exists>k<10. keyboard_grab_reply ?w k" ..
  have evs: "events ?w = [] @ ButtonPress 50 50 # [MotionNotify 20 20] @ ButtonRelease 10 10 # []"
    by (simp add: demo_world_def)
  have run: "\<not> finished (fst (event_loop demo_selector (escape_keycode ?w) drag_init []))"
      "\<not> aborted (fst (event_loop demo_selector (escape_keycode ?w) drag_init []))"
    by (simp_all add: drag_init_def)
  have mid: "\<forall>e\<in>set [MotionNotify 20 20]. keeps_drag (escape_keycode ?w) e"
    by simp
  have ptrs: "distinct [shot_x, shot_y, shot_width, shot_height]"
    by (simp add: shot_x_def shot_y_def shot_width_def shot_height_def)
  from SelectRegion_normalizes_corners [OF ptr kbd evs run mid ptrs, of "\<lambda>a. 0"]
  show ?thesis by simp
qed

text \<open>
  Claim C4, as stated: on every exit path of \<^verbatim>\<open>SelectRegion\<close>, the failed pointer
  grab included, the input grab is released exactly once. It fails where the pointer
  grab is refused: \<^verbatim>\<open>SelectRegion\<close> returns at once, nothing is held and no release
  call is made.
\<close>

theorem grabs_released_once_counterexample:
  "\<exists>ok m' calls.
     SelectRegion demo_selector ((demo_world [])\<lparr>pointer_grab_reply := False\<rparr>)
       shot_x shot_y shot_width shot_height (\<lambda>a. 0) = Some (ok, m', calls)
     \<and> count_list calls XUngrabPointer = 0 \<and> count_list calls XUngrabKeyboard = 0"
  by (auto simp: SelectRegion_def demo_world_def)

text \<open>
  Claim C4, amended. Whenever \<^verbatim>\<open>SelectRegion\<close> returns, each grab it obtained has
  been released exactly once and no other release call has been made:
  \<^verbatim>\<open>XUngrabPointer\<close> is called once if the pointer grab succeeded and never
  otherwise; \<^verbatim>\<open>XUngrabKeyboard\<close> is called once if the pointer grab and one of the
  10 keyboard grab attempts succeeded and never otherwise.
\<close>

theorem grabs_released_once:
  assumes "SelectRegion sel w x y width height m = Some (ok, m', calls)"
  shows "count_list calls XUngrabPointer = (if pointer_grab_reply w then 1 else 0)
       \<and> count_list calls XUngrabKeyboard
           = (if pointer_grab_reply w \<and> (\<exists>k<10. keyboard_grab_reply w k) then 1 else 0)"
proof (cases "pointer_grab_reply w")
  case False
  with assms show ?thesis by (auto simp: SelectRegion_def)
next
  case True
  obtain g gc where g: "grab_keyboard_loop (keyboard_grab_reply w) 0 = (g, gc)"
    by (cases "grab_keyboard_loop (keyboard_grab_reply w) 0")
  have gfst: "(\<exists>k<10. keyboard_grab_reply w k) = g"
    using grab_keyboard_loop_fst [of 0 "keyboard_grab_reply w"] g by simp
  have gcount: "count_list gc XUngrabPointer = (if g then 0 else 1)" "count_list gc XUngrabKeyboard = 0"
    using grab_keyboard_loop_releases [of "keyboard_grab_reply w" 0] g by simp_all
  show ?thesis
  proof (cases g)
    case False
    with assms True g gcount gfst show ?thesis by (auto simp: SelectRegion_def)
  next
    case kbd: True
    obtain d lc where lc: "event_loop sel (escape_keycode w) drag_init (events w) = (d, lc)"
      by (cases "event_loop sel (escape_keycode w) drag_init (events w)")
    have "\<forall>c\<in>set lc. border_call c"
      using event_loop_border_calls [of sel "escape_keycode w" drag_init "events w"] lc by simp
    then have lcount: "count_list lc XUngrabPointer = 0" "count_list lc XUngrabKeyboard = 0"
      by (simp_all add: count_list_border_calls)
    have "\<exists>sc. select_with_grabs sel w x y width height m = Some (ok, m', sc) \<and> calls = XGrabPointer # gc @ sc"
      using assms True g kbd by (auto simp: SelectRegion_def split: option.splits)
    then obtain sc where sc: "select_with_grabs sel w x y width height m = Some (ok, m', sc)"
        "calls = XGrabPointer # gc @ sc" by blast
    have "count_list sc XUngrabPointer = 1 \<and> count_list sc XUngrabKeyboard = 1"
      using sc(1) lc lcount
      by (auto simp: select_with_grabs_def MoveWindowsOffscreen_def Let_def split: if_splits)
    with sc(2) gcount kbd gfst True show ?thesis by simp
  qed
qed

theorem grabs_released_once_witness:
  "\<exists>ok m' calls.
     SelectRegion demo_selector (demo_world [KeyPress 9])
       shot_x shot_y shot_width shot_height (\<lambda>a. 0) = Some (ok, m', calls)
     \<and> count_list calls XUngrabPointer = 1 \<and> count_list calls XUngrabKeyboard = 1"
proof -
  let ?w = "demo_world [KeyPress 9]"
  obtain r where r: "SelectRegion demo_selector ?w shot_x shot_y shot_width shot_height (\<lambda>a. 0) = Some r"
    by (simp add: SelectRegion_def select_with_grabs_def demo_world_def
        grab_keyboard_loop.simps [of _ 0] drag_init_def)
  obtain ok m' calls where "r = (ok, m', calls)"
    by (cases r)
  with r have run: "SelectRegion demo_selector ?w shot_x shot_y shot_width shot_height (\<lambda>a. 0)
      = Some (ok, m', calls)"
    by simp
  have ptr: "pointer_grab_reply ?w"
    by (simp add: demo_world_def)
  have "(0::nat) < 10 \<and> keyboard_grab_reply ?w 0"
    by (simp add: demo_world_def)
  then have kbd: "\<exists>k<10. keyboard_grab_reply ?w k" ..
  from grabs_released_once [OF run] ptr kbd
  have "count_list calls XUngrabPointer = 1 \<and> count_list calls XUngrabKeyboard = 1"
    by simp
  with run show ?thesis by blast
qed

text \<open>
  Claim C5. Let the loop be running after the events \<open>pre\<close>, in state \<open>d\<close>, and let
  the next event be a press of the escape key. If a drag is in progress
  (\<open>dragging d\<close>), the loop does not end: all four border windows are moved to
  \<open>(-1, -1)\<close> with size 1 by 1, and the loop goes on with the remaining events from
  the state \<open>d\<close> with \<open>dragging\<close> reset, which is neither finished nor aborted. If
  no drag is in progress, the loop ends aborted with no further call, and
  \<^verbatim>\<open>SelectRegion\<close> (both grabs obtained) returns false and leaves the memory as it
  was: no rectangle is stored.
\<close>

theorem escape_cancels_drag_or_aborts:
  assumes evs: "events w = pre @ KeyPress (ucast (escape_keycode w)) # rest"
    and d: "d = fst (event_loop sel (escape_keycode w) drag_init pre)"
    and run: "\<not> finished d" "\<not> aborted d"
  shows "(dragging d \<longrightarrow>
            event_loop sel (escape_keycode w) drag_init (events w)
              = (fst (event_loop sel (escape_keycode w) (d\<lparr>dragging := False\<rparr>) rest),
                 snd (event_loop sel (escape_keycode w) drag_init pre)
                   @ [XMoveResizeWindow (left_win sel) (- 1) (- 1) 1 1,
                      XMoveResizeWindow (right_win sel) (- 1) (- 1) 1 1,
                      XMoveResizeWindow (top_win sel) (- 1) (- 1) 1 1,
                      XMoveResizeWindow (bottom_win sel) (- 1) (- 1) 1 1]
                   @ snd (event_loop sel (escape_keycode w) (d\<lparr>dragging := False\<rparr>) rest))
            \<and> \<not> dragging (d\<lparr>dragging := False\<rparr>)
            \<and> \<not> finished (d\<lparr>dragging := False\<rparr>) \<and> \<not> aborted (d\<lparr>dragging := False\<rparr>))
       \<and> (\<not> dragging d \<longrightarrow>
            event_loop sel (escape_keycode w) drag_init (events w)
              = (d\<lparr>aborted := True\<rparr>, snd (event_loop sel (escape_keycode w) drag_init pre))
            \<and> (pointer_grab_reply w \<and> (\<exists>k<10. keyboard_grab_reply w k) \<longrightarrow>
                 (\<exists>calls. SelectRegion sel w x y width height m = Some (False, m, calls))))"
proof (intro conjI impI)
  assume drag: "dragging d"
  show "event_loop sel (escape_keycode w) drag_init (events w)
              = (fst (event_loop sel (escape_keycode w) (d\<lparr>dragging := False\<rparr>) rest),
                 snd (event_loop sel (escape_keycode w) drag_init pre)
                   @ [XMoveResizeWindow (left_win sel) (- 1) (- 1) 1 1,
                      XMoveResizeWindow (right_win sel) (- 1) (- 1) 1 1,
                      XMoveResizeWindow (top_win sel) (- 1) (- 1) 1 1,
                      XMoveResizeWindow (bottom_win sel) (- 1) (- 1) 1 1]
                   @ snd (event_loop sel (escape_keycode w) (d\<lparr>dragging := False\<rparr>) rest))"
    using run drag
    by (simp add: evs event_loop_append d [symmetric] MoveWindowsOffscreen_def)
next
  show "\<not> dragging (d\<lparr>dragging := False\<rparr>)" by simp
next
  show "\<not> finished (d\<lparr>dragging := False\<rparr>)" using run by simp
next
  show "\<not> aborted (d\<lparr>dragging := False\<rparr>)" using run by simp
next
  assume idle: "\<not> dragging d"
  show loop: "event_loop sel (escape_keycode w) drag_init (events w)
              = (d\<lparr>aborted := True\<rparr>, snd (event_loop sel (escape_keycode w) drag_init pre))"
    using run idle
    by (cases rest) (simp_all add: evs event_loop_append d [symmetric])
next
  assume idle: "\<not> dragging d"
  assume grabs: "pointer_grab_reply w \<and> (\<exists>k<10. keyboard_grab_reply w k)"
  have loop: "event_loop sel (escape_keycode w) drag_init (events w)
              = (d\<lparr>aborted := True\<rparr>, snd (event_loop sel (escape_keycode w) drag_init pre))"
    using run idle
    by (cases rest) (simp_all add: evs event_loop_append d [symmetric])
  obtain gc where gc: "grab_keyboard_loop (keyboard_grab_reply w) 0 = (True, gc)"
    using grab_keyboard_loop_fst [of 0 "keyboard_grab_reply w"] grabs
    by (cases "grab_keyboard_loop (keyboard_grab_reply w) 0") auto
  show "\<exists>calls. SelectRegion sel w x y width height m = Some (False, m, calls)"
    using grabs gc loop by (simp add: SelectRegion_def select_with_grabs_def)
qed

theorem escape_cancels_drag_or_aborts_witness:
  "fst (event_loop demo_selector 9 drag_init [ButtonPress 50 50, MotionNotify 20 20, KeyPress 9])
     = \<lparr>finished = False, dragging = False, aborted = False,
        start_x = 50, start_y = 50, end_x = 20, end_y = 20\<rparr>
   \<and> (\<exists>calls. SelectRegion demo_selector
          (demo_world [ButtonPress 50 50, MotionNotify 20 20, KeyPress 9, KeyPress 9])
          shot_x shot_y shot_width shot_height (\<lambda>a. 0) = Some (False, (\<lambda>a. 0), calls))"
proof -
  let ?d = "\<lparr>finished = False, dragging = True, aborted = False,
        start_x = 50, start_y = 50, end_x = 20, end_y = 20\<rparr>"
  let ?i = "\<lparr>finished = False, dragging = False, aborted = False,
        start_x = 50, start_y = 50, end_x = 20, end_y = (20::cint)\<rparr>"
  let ?w1 = "demo_world [ButtonPress 50 50, MotionNotify 20 20, KeyPress 9]"
  let ?w2 = "demo_world [ButtonPress 50 50, MotionNotify 20 20, KeyPress 9, KeyPress 9]"
  have e1: "events ?w1 = [ButtonPress 50 50, MotionNotify 20 20] @ KeyPress (ucast (escape_keycode ?w1)) # []"
    by (simp add: demo_world_def)
  have d1: "?d = fst (event_loop demo_selector (escape_keycode ?w1) drag_init [ButtonPress 50 50, MotionNotify 20 20])"
    by (simp add: demo_world_def drag_init_def)
  have r1: "\<not> finished ?d" "\<not> aborted ?d" "dragging ?d"
    by simp_all
  from escape_cancels_drag_or_aborts [OF e1 d1 r1(1,2), of shot_x shot_y shot_width shot_height "\<lambda>a. 0"] r1(3)
  have "event_loop demo_selector (escape_keycode ?w1) drag_init (events ?w1)
      = (fst (event_loop demo_selector (escape_keycode ?w1) (?d\<lparr>dragging := False\<rparr>) []),
         snd (event_loop demo_selector (escape_keycode ?w1) drag_init [ButtonPress 50 50, MotionNotify 20 20])
           @ [XMoveResizeWindow (left_win demo_selector) (- 1) (- 1) 1 1,
              XMoveResizeWindow (right_win demo_selector) (- 1) (- 1) 1 1,
              XMoveResizeWindow (top_win demo_selector) (- 1) (- 1) 1 1,
              XMoveResizeWindow (bottom_win demo_selector) (- 1) (- 1) 1 1]
           @ snd (event_loop demo_selector (escape_keycode ?w1) (?d\<lparr>dragging := False\<rparr>) []))"
    by blast
  then have a: "fst (event_loop demo_selector 9 drag_init [ButtonPress 50 50, MotionNotify 20 20, KeyPress 9])
     = ?i"
    by (simp add: demo_world_def)
  have e2: "events ?w2 = [ButtonPress 50 50, MotionNotify 20 20, KeyPress 9] @ KeyPress (ucast (escape_keycode ?w2)) # []"
    by (simp add: demo_world_def)
  have d2: "?i = fst (event_loop demo_selector (escape_keycode ?w2) drag_init [ButtonPress 50 50, MotionNotify 20 20, KeyPress 9])"
    by (simp add: demo_world_def drag_init_def)
  have r2: "\<not> finished ?i" "\<not> aborted ?i" "\<not> dragging ?i"
    by simp_all
  have ptr: "pointer_grab_reply ?w2"
    by (simp add: demo_world_def)
  have "(0::nat) < 10 \<and> keyboard_grab_reply ?w2 0"
    by (simp add: demo_world_def)
  then have kbd: "\<exists>k<10. keyboard_grab_reply ?w2 k" ..
  from escape_cancels_drag_or_aborts [OF e2 d2 r2(1,2), of shot_x shot_y shot_width shot_height "\<lambda>a. 0"]
    r2(3) ptr kbd
  have b: "\<exists>calls. SelectRegion demo_selector ?w2 shot_x shot_y shot_width shot_height (\<lambda>a. 0)
      = Some (False, (\<lambda>a. 0), calls)"
    by blast
  from a b show ?thesis by (rule conjI)
qed

text \<open>
  Claim C10. A button press that arrives while a drag is in progress is not ignored:
  the \<^verbatim>\<open>ButtonPress\<close> case has no guard, so the press stores its position as the
  new start point, \<open>dragging\<close> stays set, no call is made, and the loop goes on from
  that state.
\<close>

theorem button_press_restarts_drag:
  assumes "dragging d" "\<not> finished d" "\<not> aborted d"
  shows "handle_event sel esc d (ButtonPress x_root y_root)
           = (d\<lparr>start_x := x_root, start_y := y_root, dragging := True\<rparr>, [])
       \<and> event_loop sel esc d (ButtonPress x_root y_root # rest)
           = event_loop sel esc (d\<lparr>start_x := x_root, start_y := y_root, dragging := True\<rparr>) rest
       \<and> start_x (fst (handle_event sel esc d (ButtonPress x_root y_root))) = x_root
       \<and> start_y (fst (handle_event sel esc d (ButtonPress x_root y_root))) = y_root
       \<and> dragging (d\<lparr>start_x := x_root, start_y := y_root, dragging := True\<rparr>)
       \<and> \<not> finished (d\<lparr>start_x := x_root, start_y := y_root, dragging := True\<rparr>)
       \<and> \<not> aborted (d\<lparr>start_x := x_root, start_y := y_root, dragging := True\<rparr>)"
  using assms by simp

theorem button_press_restarts_drag_witness:
  "event_loop demo_selector 9 (drag_init\<lparr>dragging := True, start_x := 50, start_y := 50\<rparr>)
     [ButtonPress 30 30, ButtonRelease 10 10]
   = (\<lparr>finished = True, dragging = True, aborted = False,
       start_x = 30, start_y = 30, end_x = 10, end_y = 10\<rparr>, [])"
proof -
  let ?d = "drag_init\<lparr>dragging := True, start_x := 50, start_y := 50\<rparr>"
  have h: "dragging ?d" "\<not> finished ?d" "\<not> aborted ?d"
    by (simp_all add: drag_init_def)
  from button_press_restarts_drag [OF h, of demo_selector 9 30 30 "[ButtonRelease 10 10]"]
  have "event_loop demo_selector 9 ?d [ButtonPress 30 30, ButtonRelease 10 10]
      = event_loop demo_selector 9 (?d\<lparr>start_x := 30, start_y := 30, dragging := True\<rparr>) [ButtonRelease 10 10]"
    by blast
  then show ?thesis
    by (simp add: drag_init_def)
qed

text \<open>
  Claim C6. In every run of \<^verbatim>\<open>main\<close> that ends, for the image \<open>img\<close> that
  \<^verbatim>\<open>XGetImage\<close> returned: if its depth is 24, the cairo surface is created with
  \<^verbatim>\<open>CAIRO_FORMAT_RGB24\<close> (no alpha) and never with \<^verbatim>\<open>CAIRO_FORMAT_ARGB32\<close>; if its
  depth is 32, it is created with \<^verbatim>\<open>CAIRO_FORMAT_ARGB32\<close> and never with
  \<^verbatim>\<open>CAIRO_FORMAT_RGB24\<close>; for any other depth the run ends by the failed depth
  \<^verbatim>\<open>CHECK\<close>, no surface is created and no file is written.
\<close>

theorem depth_selects_format:
  assumes run: "main w = Some (out, calls)"
    and req: "XGetImage win x y width height \<in> set calls"
    and img: "image_reply w win x y width height = Some img"
  shows "(img_depth img = 24 \<longrightarrow>
            cairo_image_surface_create_for_data CAIRO_FORMAT_RGB24
              (img_width img) (img_height img) (img_bytes_per_line img) \<in> set calls
            \<and> (\<forall>a b c. cairo_image_surface_create_for_data CAIRO_FORMAT_ARGB32 a b c \<notin> set calls))
       \<and> (img_depth img = 32 \<longrightarrow>
            cairo_image_surface_create_for_data CAIRO_FORMAT_ARGB32
              (img_width img) (img_height img) (img_bytes_per_line img) \<in> set calls
            \<and> (\<forall>a b c. cairo_image_surface_create_for_data CAIRO_FORMAT_RGB24 a b c \<notin> set calls))
       \<and> (img_depth img \<noteq> 24 \<and> img_depth img \<noteq> 32 \<longrightarrow>
            out = CheckFailed CHECK_depth
            \<and> (\<forall>f a b c. cairo_image_surface_create_for_data f a b c \<notin> set calls)
            \<and> (\<forall>name. cairo_surface_write_to_png name \<notin> set calls))"
proof -
  have "capture_call (XGetImage win x y width height)" by simp
  with req have "\<not> (\<forall>c\<in>set calls. \<not> capture_call c)" by blast
  with main_cases [OF run]
  obtain before win' m where parts: "calls = before @ snd (capture_and_save w win' m)"
      "out = fst (capture_and_save w win' m)" "\<forall>c\<in>set before. \<not> capture_call c"
    by blast
  have nb: "\<And>c. capture_call c \<Longrightarrow> c \<in> set calls \<longleftrightarrow> c \<in> set (snd (capture_and_save w win' m))"
    using parts(1,3) by auto
  have "XGetImage win x y width height \<in> set (snd (capture_and_save w win' m))"
    using req nb by simp
  then have same: "win' = win" "x = m shot_x" "y = m shot_y" "width = m shot_width"
      "height = m shot_height"
    using capture_and_save_XGetImage by blast+
  with img have reply: "image_reply w win' (m shot_x) (m shot_y) (m shot_width) (m shot_height) = Some img"
    by simp
  have cr: "\<And>f a b c. cairo_image_surface_create_for_data f a b c \<in> set calls
      \<longleftrightarrow> cairo_image_surface_create_for_data f a b c \<in> set (snd (capture_and_save w win' m))"
    using nb by simp
  have wr: "\<And>name. cairo_surface_write_to_png name \<in> set calls
      \<longleftrightarrow> cairo_surface_write_to_png name \<in> set (snd (capture_and_save w win' m))"
    using nb by simp
  show ?thesis
  proof (intro conjI impI)
    assume d: "img_depth img = 24"
    then show "cairo_image_surface_create_for_data CAIRO_FORMAT_RGB24
              (img_width img) (img_height img) (img_bytes_per_line img) \<in> set calls"
      by (simp add: cr capture_and_save_good_depth [OF reply])
    from d show "\<forall>a b c. cairo_image_surface_create_for_data CAIRO_FORMAT_ARGB32 a b c \<notin> set calls"
      by (simp add: cr capture_and_save_good_depth [OF reply])
  next
    assume d: "img_depth img = 32"
    then show "cairo_image_surface_create_for_data CAIRO_FORMAT_ARGB32
              (img_width img) (img_height img) (img_bytes_per_line img) \<in> set calls"
      by (simp add: cr capture_and_save_good_depth [OF reply])
    from d show "\<forall>a b c. cairo_image_surface_create_for_data CAIRO_FORMAT_RGB24 a b c \<notin> set calls"
      by (simp add: cr capture_and_save_good_depth [OF reply])
  next
    assume d: "img_depth img \<noteq> 24 \<and> img_depth img \<noteq> 32"
    then show "out = CheckFailed CHECK_depth"
      by (simp add: parts(2) capture_and_save_bad_depth [OF reply])
    from d show "\<forall>f a b c. cairo_image_surface_create_for_data f a b c \<notin> set calls"
      by (simp add: cr capture_and_save_bad_depth [OF reply])
    from d show "\<forall>name. cairo_surface_write_to_png name \<notin> set calls"
      by (simp add: wr capture_and_save_bad_depth [OF reply])
  qed
qed

theorem depth_selects_format_witness:
  "(\<exists>calls. main ((demo_world [])\<lparr>FLAGS_region := False\<rparr>) = Some (Return 0, calls)
      \<and> cairo_image_surface_create_for_data CAIRO_FORMAT_RGB24 1920 1080 7680 \<in> set calls
      \<and> (\<forall>a b c. cairo_image_surface_create_for_data CAIRO_FORMAT_ARGB32 a b c \<notin> set calls))
   \<and> (\<exists>calls. main ((demo_world [])\<lparr>FLAGS_region := False,
          image_reply := (\<lambda>win x y width height.
            Some \<lparr>img_width = width, img_height = height, img_depth = 16,
                  img_bytes_per_line = 2 * width\<rparr>)\<rparr>) = Some (CheckFailed CHECK_depth, calls)
      \<and> (\<forall>f a b c. cairo_image_surface_create_for_data f a b c \<notin> set calls)
      \<and> (\<forall>name. cairo_surface_write_to_png name \<notin> set calls))"
proof -
  let ?w = "(demo_world [])\<lparr>FLAGS_region := False\<rparr>"
  let ?img = "\<lparr>img_width = 1920, img_height = 1080, img_depth = 24, img_bytes_per_line = 7680 :: cint\<rparr>"
  obtain calls where run: "main ?w = Some (Return 0, calls)"
      and req: "XGetImage 1 0 0 1920 1080 \<in> set calls"
    using demo_window_run by simp
  have img: "image_reply ?w 1 0 0 1920 1080 = Some ?img"
    by (simp add: demo_world_def)
  from depth_selects_format [OF run req img]
  have a: "cairo_image_surface_create_for_data CAIRO_FORMAT_RGB24 1920 1080 7680 \<in> set calls
      \<and> (\<forall>a b c. cairo_image_surface_create_for_data CAIRO_FORMAT_ARGB32 a b c \<notin> set calls)"
    by simp
  let ?w' = "(demo_world [])\<lparr>FLAGS_region := False,
          image_reply := (\<lambda>win x y width height.
            Some \<lparr>img_width = width, img_height = height, img_depth = 16,
                  img_bytes_per_line = 2 * width\<rparr>)\<rparr>"
  let ?img' = "\<lparr>img_width = 1920, img_height = 1080, img_depth = 16, img_bytes_per_line = 2 * 1920 :: cint\<rparr>"
  obtain out' calls' where run': "main ?w' = Some (out', calls')"
      and req': "XGetImage 1 0 0 1920 1080 \<in> set calls'"
    using demo_depth16_run by simp
  have img': "image_reply ?w' 1 0 0 1920 1080 = Some ?img'"
    by (simp add: demo_world_def)
  from depth_selects_format [OF run' req' img']
  have b: "out' = CheckFailed CHECK_depth
      \<and> (\<forall>f a b c. cairo_image_surface_create_for_data f a b c \<notin> set calls')
      \<and> (\<forall>name. cairo_surface_write_to_png name \<notin> set calls')"
    by simp
  from run a run' b show ?thesis by blast
qed

text \<open>
  Claim C8. Every run of \<^verbatim>\<open>main\<close> that returns 0 ends with these calls, in this
  order: \<^verbatim>\<open>XGetImage\<close> on the captured rectangle; the creation of the white
  feedback window on the same rectangle with its opacity property; its mapping and a
  flush; \<^verbatim>\<open>usleep\<close> of 100 ms; its destruction and a flush; only then the cairo
  surface and \<^verbatim>\<open>cairo_surface_write_to_png\<close>. Before \<^verbatim>\<open>XGetImage\<close> no image is
  read, no feedback window is created and nothing is encoded.
\<close>

theorem feedback_between_capture_and_encoding:
  assumes "main w = Some (Return 0, calls)"
  shows "\<exists>before win x y width height img.
      image_reply w win x y width height = Some img
      \<and> calls = before @
        [XGetImage win x y width height,
         XCreateWindow WhitePixel x y width height,
         XInternAtom, XChangeProperty (feedback_window_id w) 1073741823,
         XMapWindow (feedback_window_id w), XFlush, usleep (100 * 1000),
         XDestroyWindow (feedback_window_id w), XFlush,
         cairo_image_surface_create_for_data
           (if img_depth img = 24 then CAIRO_FORMAT_RGB24 else CAIRO_FORMAT_ARGB32)
           (img_width img) (img_height img) (img_bytes_per_line img),
         cairo_surface_write_to_png (filename w), cairo_surface_destroy,
         XDestroyImage, XCloseDisplay]
      \<and> (\<forall>c\<in>set before. \<not> capture_call c)"
proof -
  from main_cases [OF assms]
  obtain before win m where parts: "calls = before @ snd (capture_and_save w win m)"
      "Return 0 = fst (capture_and_save w win m)" "\<forall>c\<in>set before. \<not> capture_call c"
    by blast
  from capture_and_save_success [OF parts(2) [symmetric]]
  obtain img where img: "image_reply w win (m shot_x) (m shot_y) (m shot_width) (m shot_height) = Some img"
      "snd (capture_and_save w win m) =
        [XGetImage win (m shot_x) (m shot_y) (m shot_width) (m shot_height),
         XCreateWindow WhitePixel (m shot_x) (m shot_y) (m shot_width) (m shot_height),
         XInternAtom, XChangeProperty (feedback_window_id w) 1073741823,
         XMapWindow (feedback_window_id w), XFlush, usleep (100 * 1000),
         XDestroyWindow (feedback_window_id w), XFlush,
         cairo_image_surface_create_for_data
           (if img_depth img = 24 then CAIRO_FORMAT_RGB24 else CAIRO_FORMAT_ARGB32)
           (img_width img) (img_height img) (img_bytes_per_line img),
         cairo_surface_write_to_png (filename w), cairo_surface_destroy,
         XDestroyImage, XCloseDisplay]"
    by blast
  show ?thesis
    using img(1) parts(3) unfolding parts(1) img(2)
    by (intro exI [of _ before] exI [of _ win] exI [of _ "m shot_x"] exI [of _ "m shot_y"]
        exI [of _ "m shot_width"] exI [of _ "m shot_height"] exI [of _ img] conjI refl)
qed

theorem feedback_between_capture_and_encoding_witness:
  "\<exists>calls before. main ((demo_world [])\<lparr>FLAGS_region := False\<rparr>) = Some (Return 0, calls)
     \<and> calls = before @
        [XGetImage 1 0 0 1920 1080,
         XCreateWindow WhitePixel 0 0 1920 1080, XInternAtom, XChangeProperty 14 1073741823,
         XMapWindow 14, XFlush, usleep 100000, XDestroyWindow 14, XFlush,
         cairo_image_surface_create_for_data CAIRO_FORMAT_RGB24 1920 1080 7680,
         cairo_surface_write_to_png ''shot.png'', cairo_surface_destroy,
         XDestroyImage, XCloseDisplay]
     \<and> (\<forall>c\<in>set before. \<not> capture_call c)"
proof -
  let ?w = "(demo_world [])\<lparr>FLAGS_region := False\<rparr>"
  obtain calls where run: "main ?w = Some (Return 0, calls)"
      and calls: "calls = [XOpenDisplay, XGetGeometry 1] @ [XGetImage 1 0 0 1920 1080,
          XCreateWindow WhitePixel 0 0 1920 1080, XInternAtom, XChangeProperty 14 1073741823,
          XMapWindow 14, XFlush, usleep 100000, XDestroyWindow 14, XFlush,
          cairo_image_surface_create_for_data CAIRO_FORMAT_RGB24 1920 1080 7680,
          cairo_surface_write_to_png ''shot.png'', cairo_surface_destroy,
          XDestroyImage, XCloseDisplay]"
    using demo_window_run by simp
  from feedback_between_capture_and_encoding [OF run]
  obtain before win x y width height img where f:
      "image_reply ?w win x y width height = Some img"
      "calls = before @
        [XGetImage win x y width height,
         XCreateWindow WhitePixel x y width height,
         XInternAtom, XChangeProperty (feedback_window_id ?w) 1073741823,
         XMapWindow (feedback_window_id ?w), XFlush, usleep (100 * 1000),
         XDestroyWindow (feedback_window_id ?w), XFlush,
         cairo_image_surface_create_for_data
           (if img_depth img = 24 then CAIRO_FORMAT_RGB24 else CAIRO_FORMAT_ARGB32)
           (img_width img) (img_height img) (img_bytes_per_line img),
         cairo_surface_write_to_png (filename ?w), cairo_surface_destroy,
         XDestroyImage, XCloseDisplay]"
      "\<forall>c\<in>set before. \<not> capture_call c"
    by blast
  from f(2) calls have "before = [XOpenDisplay, XGetGeometry 1]"
    by simp
  with run calls f(3) show ?thesis by simp
qed




text \<open>
  Claim C9. When the region flag is set, the value of the window flag has no
  influence on the run (it is never parsed) and the run never ends by the failed
  \<^verbatim>\<open>CHECK\<close> on the window flag. The root window is the capture surface: a run that
  ends after the display was opened has asked \<^verbatim>\<open>XGetGeometry\<close> for the root window
  as its second call; a run that ends in any way other than by \<^verbatim>\<open>return 1\<close>, the
  display \<^verbatim>\<open>CHECK\<close> or the geometry \<^verbatim>\<open>CHECK\<close> (so every run that returns 0) has
  called \<^verbatim>\<open>XGetImage\<close> on the root window; and no \<^verbatim>\<open>XGetImage\<close> of the run reads
  from another window.
\<close>

theorem region_flag_ignores_window_flag:
  assumes "FLAGS_region w"
  shows "main (w\<lparr>FLAGS_window := s\<rparr>) = main w
       \<and> capture_window w = Some (root_window w)
       \<and> (\<forall>calls. main w \<noteq> Some (CheckFailed CHECK_window, calls))
       \<and> (\<forall>out calls. main w = Some (out, calls) \<and> argc w = 2 \<and> display_opens w
              \<longrightarrow> (\<exists>rest. calls = XOpenDisplay # XGetGeometry (root_window w) # rest))
       \<and> (\<forall>out calls. main w = Some (out, calls) \<and> out \<noteq> Return 1
              \<and> out \<noteq> CheckFailed CHECK_display \<and> out \<noteq> CheckFailed CHECK_XGetGeometry
              \<longrightarrow> (\<exists>x y width height. XGetImage (root_window w) x y width height \<in> set calls))
       \<and> (\<forall>out calls win x y width height.
            main w = Some (out, calls) \<and> XGetImage win x y width height \<in> set calls
              \<longrightarrow> win = root_window w)"
proof (intro conjI allI impI)
  show "main (w\<lparr>FLAGS_window := s\<rparr>) = main w"
    using assms
    by (simp add: main_def capture_window_def Let_def SelectRegion_ignores_window_flag
        capture_and_save_ignores_window_flag RegionSelector_new_ignores_window_flag
        cong: option.case_cong prod.case_cong if_cong)
next
  show "capture_window w = Some (root_window w)"
    using assms by (simp add: capture_window_def)
next
  fix calls
  show "main w \<noteq> Some (CheckFailed CHECK_window, calls)"
  proof
    assume run: "main w = Some (CheckFailed CHECK_window, calls)"
    show False
    proof (cases "argc w \<noteq> 2")
      case True
      with run show False by (simp add: main_usage)
    next
      case a: False
      show False
      proof (cases "display_opens w")
        case False
        with a run show False by (simp add: main_no_display)
      next
        case True
        from region_run_shape [OF assms run _ True] a
        have "\<exists>m'. CheckFailed CHECK_window = fst (capture_and_save w (root_window w) m')"
          by auto
        then show False
          using capture_and_save_not_window_check [of w "root_window w"] by metis
      qed
    qed
  qed
next
  fix out calls
  assume a: "main w = Some (out, calls) \<and> argc w = 2 \<and> display_opens w"
  then have run: "main w = Some (out, calls)" and env: "argc w = 2" "display_opens w"
    by simp_all
  from region_run_shape [OF assms run env]
  show "\<exists>rest. calls = XOpenDisplay # XGetGeometry (root_window w) # rest"
    by auto
next
  fix out calls
  assume a: "main w = Some (out, calls) \<and> out \<noteq> Return 1
      \<and> out \<noteq> CheckFailed CHECK_display \<and> out \<noteq> CheckFailed CHECK_XGetGeometry"
  then have run: "main w = Some (out, calls)" by simp
  have argc: "argc w = 2"
  proof (rule ccontr)
    assume "argc w \<noteq> 2"
    with run a show False by (auto simp: main_usage)
  qed
  have disp: "display_opens w"
  proof (rule ccontr)
    assume "\<not> display_opens w"
    with run a argc show False by (auto simp: main_no_display)
  qed
  from region_run_shape [OF assms run argc disp] a
  obtain before m' where parts: "calls = XOpenDisplay # XGetGeometry (root_window w) # before
                 @ snd (capture_and_save w (root_window w) m')"
    by auto
  obtain tail where "snd (capture_and_save w (root_window w) m')
     = XGetImage (root_window w) (m' shot_x) (m' shot_y) (m' shot_width) (m' shot_height) # tail"
    using capture_and_save_reads by blast
  with parts have "XGetImage (root_window w) (m' shot_x) (m' shot_y) (m' shot_width) (m' shot_height)
      \<in> set calls"
    by simp
  then show "\<exists>x y width height. XGetImage (root_window w) x y width height \<in> set calls"
    by blast
next
  fix out calls win x y width height
  assume a: "main w = Some (out, calls) \<and> XGetImage win x y width height \<in> set calls"
  have cw: "capture_window w = Some (root_window w)"
    using assms by (simp add: capture_window_def)
  have "capture_call (XGetImage win x y width height)" by simp
  with a have "\<not> (\<forall>c\<in>set calls. \<not> capture_call c)" by blast
  with main_cases [of w out calls] a cw
  obtain before m where parts: "calls = before @ snd (capture_and_save w (root_window w) m)"
      "\<forall>c\<in>set before. \<not> capture_call c"
    by auto
  then have "XGetImage win x y width height \<in> set (snd (capture_and_save w (root_window w) m))"
    using a by auto
  then show "win = root_window w"
    using capture_and_save_XGetImage by blast
qed

theorem region_flag_ignores_window_flag_witness:
  "\<exists>calls rest x y width height.
     main ((demo_world [ButtonPress 50 50, ButtonRelease 10 10])\<lparr>FLAGS_window := ''not-hex''\<rparr>)
       = Some (Return 0, calls)
     \<and> calls = XOpenDisplay # XGetGeometry 1 # rest
     \<and> XGetImage 1 x y width height \<in> set calls
     \<and> main ((demo_world [ButtonPress 50 50, ButtonRelease 10 10])\<lparr>FLAGS_window := ''not-hex''\<rparr>)
       = main (demo_world [ButtonPress 50 50, ButtonRelease 10 10])"
proof -
  let ?w = "(demo_world [ButtonPress 50 50, ButtonRelease 10 10])\<lparr>FLAGS_window := ''not-hex''\<rparr>"
  have h: "FLAGS_region ?w"
    by (simp add: demo_world_def)
  have env: "argc ?w = 2" "display_opens ?w" "root_window ?w = 1"
    by (simp_all add: demo_world_def)
  have same: "?w\<lparr>FLAGS_window := []\<rparr> = demo_world [ButtonPress 50 50, ButtonRelease 10 10]"
    by (simp add: demo_world_def)
  obtain r where r: "main ?w = Some r" "fst r = Return 0"
    using demo_region_not_hex_run by (cases "main ?w") auto
  obtain calls where run: "main ?w = Some (Return 0, calls)"
    using r by (cases r) simp
  note facts = region_flag_ignores_window_flag [OF h, of "[]"]
  from facts have eq: "main (?w\<lparr>FLAGS_window := []\<rparr>) = main ?w"
    by blast
  from facts run env(1,2) obtain rest where rest: "calls = XOpenDisplay # XGetGeometry (root_window ?w) # rest"
    by blast
  from facts have reads: "\<forall>out calls. main ?w = Some (out, calls) \<and> out \<noteq> Return 1
              \<and> out \<noteq> CheckFailed CHECK_display \<and> out \<noteq> CheckFailed CHECK_XGetGeometry
              \<longrightarrow> (\<exists>x y width height. XGetImage (root_window ?w) x y width height \<in> set calls)"
    by blast
  have "\<exists>x y width height. XGetImage (root_window ?w) x y width height \<in> set calls"
    using run reads [rule_format, of "Return 0" calls] by simp
  then obtain x y width height where
      img: "XGetImage (root_window ?w) x y width height \<in> set calls"
    by blast
  from run rest img eq show ?thesis
    unfolding env(3) same by metis
qed

end
